theory Spec2Isabelle
  imports Main "HOL-Library.Multiset"
begin

section \<open>JavaScript strings\<close>

text \<open>
  A JavaScript string is a sequence of UTF-16 code units. It is modelled as a
  \<^typ>\<open>string\<close>, one \<^typ>\<open>char\<close> per code unit (the code units below 256), so that
  \<^const>\<open>length\<close> is JavaScript's \<^verbatim>\<open>.length\<close>.
\<close>

definition startsWith :: "string \<Rightarrow> string \<Rightarrow> bool" where
  "startsWith s p = (take (length p) s = p)"

definition endsWith :: "string \<Rightarrow> string \<Rightarrow> bool" where
  "endsWith s p = (length p \<le> length s \<and> drop (length s - length p) s = p)"

text \<open>\<^verbatim>\<open>s.includes(sub)\<close>: \<open>sub\<close> occurs in \<open>s\<close> at some position.\<close>

fun includes_str :: "string \<Rightarrow> string \<Rightarrow> bool" where
  "includes_str [] sub = (sub = [])"
| "includes_str (c # s) sub = (startsWith (c # s) sub \<or> includes_str s sub)"

text \<open>\<^verbatim>\<open>s.slice(n)\<close> and \<^verbatim>\<open>s.substring(0, n)\<close> for a non-negative \<open>n\<close>.\<close>

definition slice :: "string \<Rightarrow> nat \<Rightarrow> string" where
  "slice s n = drop n s"

definition substring0 :: "string \<Rightarrow> nat \<Rightarrow> string" where
  "substring0 s n = take n s"

text \<open>
  \<^verbatim>\<open>s.replace(/suf$/, r)\<close> for a literal \<open>suf\<close>: without the \<^verbatim>\<open>m\<close> flag the anchor
  matches at the end of the input only, so the one possible match is the suffix.
\<close>

definition replaceAtEnd :: "string \<Rightarrow> string \<Rightarrow> string \<Rightarrow> string" where
  "replaceAtEnd s suf r =
     (if endsWith s suf then take (length s - length suf) s @ r else s)"

text \<open>
  \<^verbatim>\<open>s.trim()\<close> removes white space and line terminators from both ends; these are
  the ones among the code units below 256: tab, line feed, vertical tab, form feed,
  carriage return, space and no-break space.
\<close>

definition isWhiteSpace :: "char \<Rightarrow> bool" where
  "isWhiteSpace c =
     (c = CHR 0x09 \<or> c = CHR 0x0A \<or> c = CHR 0x0B \<or> c = CHR 0x0C \<or> c = CHR 0x0D \<or>
      c = CHR 0x20 \<or> c = CHR 0xA0)"

definition trim :: "string \<Rightarrow> string" where
  "trim s = rev (dropWhile isWhiteSpace (rev (dropWhile isWhiteSpace s)))"

text \<open>\<^verbatim>\<open>lines.join(sep)\<close>.\<close>

fun join :: "string list \<Rightarrow> string \<Rightarrow> string" where
  "join [] sep = []"
| "join [l] sep = l"
| "join (l # m # ls) sep = l @ sep @ join (m # ls) sep"

text \<open>
  \<^verbatim>\<open>s.match(/c/g)\<close> for a single literal character: the list of all matches, or
  \<^verbatim>\<open>null\<close> (here \<open>None\<close>) when there is none.
\<close>

definition match_g :: "string \<Rightarrow> char \<Rightarrow> string list option" where
  "match_g s c =
     (let ms = map (\<lambda>x. [x]) (filter (\<lambda>x. x = c) s)
      in if ms = [] then None else Some ms)"

section \<open>The platform's URL parser\<close>

text \<open>
  \<^verbatim>\<open>new URL(input, base)\<close> is the platform's parser. The functions of the program take
  it as a parameter: given the input and the optional base it returns the parsed
  URL, or \<open>Inl\<close> the text of the \<^verbatim>\<open>TypeError\<close> it throws. The fields are the ones
  the program reads.
\<close>

record URL =
  protocol :: string
  hostname :: string
  pathname :: string
  origin :: string

type_synonym url_parser = "string \<Rightarrow> string option \<Rightarrow> string + URL"

section \<open>The crawler: admission and path reconstruction\<close>

text \<open>\<^verbatim>\<open>hostname.replace(/^www\./, '')\<close>: one leading \<^verbatim>\<open>www.\<close> is removed.\<close>

definition normalizeHostname :: "string \<Rightarrow> string" where
  "normalizeHostname h = (if startsWith h ''www.'' then drop 4 h else h)"

text \<open>
  The \<^verbatim>\<open>urlFilter\<close> closure handed to the scraper. It closes over the seed \<open>url\<close> and
  \<open>normalizedBaseHost\<close>; the \<^verbatim>\<open>catch\<close> branch is the \<open>Inl\<close> case.
\<close>

definition urlFilter :: "url_parser \<Rightarrow> string \<Rightarrow> string \<Rightarrow> string \<Rightarrow> bool" where
  "urlFilter newURL url normalizedBaseHost resourceUrl =
     (case newURL resourceUrl (Some url) of
        Inr resUrl \<Rightarrow>
          (let normalizedResHost = normalizeHostname (hostname resUrl);
               isSameDomain = (normalizedResHost = normalizedBaseHost);
               isValidProtocol = (protocol resUrl = ''http:'' \<or> protocol resUrl = ''https:'');
               isNotAdmin = (\<not> includes_str (pathname resUrl) ''/wp-admin'' \<and>
                             \<not> includes_str (pathname resUrl) ''/wp-login'')
           in isSameDomain \<and> isValidProtocol \<and> isNotAdmin)
      | Inl _ \<Rightarrow>
          (\<not> startsWith resourceUrl ''mailto:'' \<and>
           \<not> startsWith resourceUrl ''tel:'' \<and>
           \<not> startsWith resourceUrl ''javascript:'' \<and>
           \<not> startsWith resourceUrl ''#''))"

text \<open>
  The admission predicate of a run seeded with \<open>url\<close>: \<^verbatim>\<open>fetchWebsite\<close> parses the seed
  first (and throws when that fails), then builds the closure.
\<close>

definition admit :: "url_parser \<Rightarrow> string \<Rightarrow> string \<Rightarrow> string + bool" where
  "admit newURL url resourceUrl =
     (case newURL url None of
        Inl e \<Rightarrow> Inl e
      | Inr baseUrl \<Rightarrow>
          Inr (urlFilter newURL url (normalizeHostname (hostname baseUrl)) resourceUrl))"

text \<open>
  The loop of \<^verbatim>\<open>reconstructUrl\<close> over the host variants: the first variant that is a
  prefix of the path decides, with or without a following separator.
\<close>

fun stripHostFolder :: "string list \<Rightarrow> string \<Rightarrow> string" where
  "stripHostFolder [] relativePath = relativePath"
| "stripHostFolder (host # hosts) relativePath =
     (if startsWith relativePath (host @ ''/'') then slice relativePath (length host + 1)
      else if startsWith relativePath host then slice relativePath (length host)
      else stripHostFolder hosts relativePath)"

definition hostVariants :: "URL \<Rightarrow> string list" where
  "hostVariants base =
     [hostname base,
      normalizeHostname (hostname base),
      ''www.'' @ normalizeHostname (hostname base)]"

definition cleanPath :: "string \<Rightarrow> string" where
  "cleanPath pathWithoutHost =
     replaceAtEnd (replaceAtEnd pathWithoutHost ''/index.html'' ''/'') ''.html'' ''''"

definition reconstructUrl :: "url_parser \<Rightarrow> string \<Rightarrow> string \<Rightarrow> string + string" where
  "reconstructUrl newURL baseUrl relativePath =
     (case newURL baseUrl None of
        Inl e \<Rightarrow> Inl e
      | Inr base \<Rightarrow>
          (let pathWithoutHost = stripHostFolder (hostVariants base) relativePath
           in if pathWithoutHost = ''index.html'' \<or> pathWithoutHost = ''''
              then Inr (origin base @ ''/'')
              else Inr (origin base @ ''/'' @ cleanPath pathWithoutHost)))"


section \<open>The data model\<close>

text \<open>
  The interfaces of \<^verbatim>\<open>types.ts\<close>. An optional field is an \<open>option\<close>. A heading's level
  is what \<^verbatim>\<open>parseInt\<close> returned: \<open>None\<close> is \<^verbatim>\<open>NaN\<close>. Parsed JSON values are of an
  arbitrary type \<open>'j\<close>.
\<close>

record Heading =
  level :: "int option"
  htext :: string

datatype ListType = ul | ol

record ListItem =
  ltype :: ListType
  items :: "string list"

record LinkInfo =
  href :: string
  ltext :: string
  isExternal :: bool

record ImageInfo =
  src :: string
  alt :: string
  localPath_img :: "string option"

record 'j PageMetadata =
  charset :: "string option"
  viewport :: "string option"
  robots :: "string option"
  canonical :: "string option"
  ogTitle :: "string option"
  ogDescription :: "string option"
  ogImage :: "string option"
  structuredData :: "'j list"

record 'j PageContent =
  url :: string
  path :: string
  title :: string
  description :: "string option"
  headings :: "Heading list"
  paragraphs :: "string list"
  lists :: "ListItem list"
  links :: "LinkInfo list"
  images :: "ImageInfo list"
  metadata :: "'j PageMetadata"
  rawHtml :: "string option"
  extractedText :: string

datatype AssetType = css | js | image | font | other

record AssetInfo =
  asset_url :: string
  localPath :: string
  atype :: AssetType
  asize :: "nat option"

record SitemapEntry =
  entry_url :: string
  entry_title :: string
  depth :: nat

record 'j SiteContent =
  baseUrl :: string
  fetchedAt :: string
  totalPages :: nat
  totalAssets :: nat
  pages :: "'j PageContent list"
  assets :: "AssetInfo list"
  sitemap :: "SitemapEntry list"
  suggestedLlmsTxt :: string

record 'j FetchResult =
  success :: bool
  siteContent :: "'j SiteContent"
  outputDir :: string
  errors :: "string list"

section \<open>The platform\<close>

text \<open>
  What the program calls and does not define: the URL parser, the document query
  library (\<^verbatim>\<open>cheerio\<close>), \<^verbatim>\<open>JSON.parse\<close>, \<^verbatim>\<open>path.extname\<close> and \<^verbatim>\<open>toLowerCase\<close>. A
  document \<open>'doc\<close> is the state of the parsed tree, an element \<open>'el\<close> a node of it;
  every read takes the document it reads from, since \<^verbatim>\<open>remove\<close> changes the tree.
  \<^item> \<open>select d sel\<close> is \<^verbatim>\<open>$(sel)\<close>: the matched elements in document order;
  \<^item> \<open>find_in d els sel\<close> is \<^verbatim>\<open>$(els).find(sel)\<close>;
  \<^item> \<open>remove_sel d sel\<close> is the tree after \<^verbatim>\<open>$(sel).remove()\<close>;
  \<^item> \<open>text_of d el\<close> is \<^verbatim>\<open>$(el).text()\<close>, \<open>attr d el a\<close> is \<^verbatim>\<open>$(el).attr(a)\<close> (\<open>None\<close>
    for \<^verbatim>\<open>undefined\<close>), \<open>html d el\<close> is \<^verbatim>\<open>$(el).html()\<close> (\<open>None\<close> for \<^verbatim>\<open>null\<close>);
  \<^item> \<open>JSON_parse s\<close> is \<open>None\<close> when \<^verbatim>\<open>JSON.parse\<close> throws.
\<close>

record ('doc, 'el, 'j) platform =
  parseURL :: url_parser
  load :: "string \<Rightarrow> 'doc"
  select :: "'doc \<Rightarrow> string \<Rightarrow> 'el list"
  find_in :: "'doc \<Rightarrow> 'el list \<Rightarrow> string \<Rightarrow> 'el list"
  remove_sel :: "'doc \<Rightarrow> string \<Rightarrow> 'doc"
  tagName :: "'el \<Rightarrow> string"
  text_of :: "'doc \<Rightarrow> 'el \<Rightarrow> string"
  attr :: "'doc \<Rightarrow> 'el \<Rightarrow> string \<Rightarrow> string option"
  html :: "'doc \<Rightarrow> 'el \<Rightarrow> string option"
  JSON_parse :: "string \<Rightarrow> 'j option"
  extname :: "string \<Rightarrow> string"
  toLowerCase :: "string \<Rightarrow> string"

text \<open>\<^verbatim>\<open>a || b\<close> on strings that may be \<^verbatim>\<open>undefined\<close>: the empty string is falsy.\<close>

definition truthy :: "string option \<Rightarrow> bool" where
  "truthy a = (case a of None \<Rightarrow> False | Some s \<Rightarrow> s \<noteq> [])"

definition or_else :: "string option \<Rightarrow> string option \<Rightarrow> string option" where
  "or_else a b = (if truthy a then a else b)"

definition or_str :: "string option \<Rightarrow> string \<Rightarrow> string" where
  "or_str a b = (case a of None \<Rightarrow> b | Some s \<Rightarrow> if s \<noteq> [] then s else b)"

text \<open>\<^verbatim>\<open>.text()\<close> and \<^verbatim>\<open>.attr(a)\<close> of a selection: all texts combined; the first element's attribute.\<close>

definition text_all :: "('doc, 'el, 'j) platform \<Rightarrow> 'doc \<Rightarrow> 'el list \<Rightarrow> string" where
  "text_all P d els = concat (map (text_of P d) els)"

definition attr_first ::
  "('doc, 'el, 'j) platform \<Rightarrow> 'doc \<Rightarrow> 'el list \<Rightarrow> string \<Rightarrow> string option" where
  "attr_first P d els a = (case els of [] \<Rightarrow> None | el # _ \<Rightarrow> attr P d el a)"

text \<open>\<^verbatim>\<open>parseInt(el.tagName[1])\<close>: the digit at index 1, \<^verbatim>\<open>NaN\<close> when there is none.\<close>

definition digit_of :: "char \<Rightarrow> int option" where
  "digit_of c =
     (let n = (of_char c :: nat)
      in if 48 \<le> n \<and> n \<le> 57 then Some (int n - 48) else None)"

definition parseInt_at1 :: "string \<Rightarrow> int option" where
  "parseInt_at1 s = (case s of _ # c # _ \<Rightarrow> digit_of c | _ \<Rightarrow> None)"

section \<open>The extractor\<close>

text \<open>
  Each \<^verbatim>\<open>$(sel).each(...)\<close> loop of \<^verbatim>\<open>extractPageContent\<close> is a recursion over the
  selected elements that carries the array being filled.
\<close>

fun pushHeadings ::
  "('doc, 'el, 'j) platform \<Rightarrow> 'doc \<Rightarrow> 'el list \<Rightarrow> Heading list \<Rightarrow> Heading list" where
  "pushHeadings P d [] hs = hs"
| "pushHeadings P d (el # els) hs =
     (let lvl = parseInt_at1 (tagName P el);
          t = trim (text_of P d el)
      in if t \<noteq> [] then pushHeadings P d els (hs @ [\<lparr>level = lvl, htext = t\<rparr>])
         else pushHeadings P d els hs)"

fun pushParagraphs ::
  "('doc, 'el, 'j) platform \<Rightarrow> 'doc \<Rightarrow> 'el list \<Rightarrow> string list \<Rightarrow> string list" where
  "pushParagraphs P d [] ps = ps"
| "pushParagraphs P d (el # els) ps =
     (let t = trim (text_of P d el)
      in if t \<noteq> [] \<and> length t > 20 then pushParagraphs P d els (ps @ [t])
         else pushParagraphs P d els ps)"

fun pushItems ::
  "('doc, 'el, 'j) platform \<Rightarrow> 'doc \<Rightarrow> 'el list \<Rightarrow> string list \<Rightarrow> string list" where
  "pushItems P d [] its = its"
| "pushItems P d (li # lis) its =
     (let t = trim (text_of P d li)
      in if t \<noteq> [] then pushItems P d lis (its @ [t]) else pushItems P d lis its)"

fun pushLists ::
  "('doc, 'el, 'j) platform \<Rightarrow> 'doc \<Rightarrow> 'el list \<Rightarrow> ListItem list \<Rightarrow> ListItem list" where
  "pushLists P d [] ls = ls"
| "pushLists P d (el # els) ls =
     (let ty = (if tagName P el = ''ul'' then ul else ol);
          its = pushItems P d (find_in P d [el] ''> li'') []
      in if length its > 0 then pushLists P d els (ls @ [\<lparr>ltype = ty, items = its\<rparr>])
         else pushLists P d els ls)"

fun pushLinks ::
  "('doc, 'el, 'j) platform \<Rightarrow> 'doc \<Rightarrow> URL \<Rightarrow> 'el list \<Rightarrow> LinkInfo list \<Rightarrow> LinkInfo list" where
  "pushLinks P d base [] ls = ls"
| "pushLinks P d base (el # els) ls =
     (let h = or_str (attr P d el ''href'') [];
          t = trim (text_of P d el)
      in if h \<noteq> [] \<and> \<not> startsWith h ''#'' \<and> \<not> startsWith h ''javascript:''
         then (let ext = (startsWith h ''http'' \<and> \<not> includes_str h (hostname base))
               in pushLinks P d base els (ls @ [\<lparr>href = h, ltext = t, isExternal = ext\<rparr>]))
         else pushLinks P d base els ls)"

fun pushImages ::
  "('doc, 'el, 'j) platform \<Rightarrow> 'doc \<Rightarrow> 'el list \<Rightarrow> ImageInfo list \<Rightarrow> ImageInfo list" where
  "pushImages P d [] is = is"
| "pushImages P d (el # els) is =
     (let s = or_str (attr P d el ''src'') [];
          a = or_str (attr P d el ''alt'') []
      in if s \<noteq> [] then pushImages P d els (is @ [\<lparr>src = s, alt = a, localPath_img = None\<rparr>])
         else pushImages P d els is)"

text \<open>
  The loop of \<^verbatim>\<open>extractStructuredData\<close>: the \<^verbatim>\<open>try\<close> is inside the callback, so a
  block whose text does not parse leaves the array as it is and the loop goes on.
\<close>

fun pushStructuredData ::
  "('doc, 'el, 'j) platform \<Rightarrow> 'doc \<Rightarrow> 'el list \<Rightarrow> 'j list \<Rightarrow> 'j list" where
  "pushStructuredData P d [] sd = sd"
| "pushStructuredData P d (el # els) sd =
     (case JSON_parse P (or_str (html P d el) []) of
        Some json \<Rightarrow> pushStructuredData P d els (sd @ [json])
      | None \<Rightarrow> pushStructuredData P d els sd)"

definition extractStructuredData :: "('doc, 'el, 'j) platform \<Rightarrow> 'doc \<Rightarrow> 'j list" where
  \<open>extractStructuredData P d =
     pushStructuredData P d (select P d ''script[type="application/ld+json"]'') []\<close>

fun pushTextParts ::
  "('doc, 'el, 'j) platform \<Rightarrow> 'doc \<Rightarrow> 'el list \<Rightarrow> string list \<Rightarrow> string list" where
  "pushTextParts P d [] ts = ts"
| "pushTextParts P d (el # els) ts =
     (let t = trim (text_of P d el)
      in if t \<noteq> [] \<and> length t > 5 then pushTextParts P d els (ts @ [t])
         else pushTextParts P d els ts)"

text \<open>\<^verbatim>\<open>extractFullText\<close> removes the script-like subtrees first and reads the tree that is left.\<close>

definition extractFullText :: "('doc, 'el, 'j) platform \<Rightarrow> 'doc \<Rightarrow> string" where
  "extractFullText P d =
     (let d' = remove_sel P d ''script, style, noscript, iframe'';
          body = select P d' ''body''
      in if length body = 0 then []
         else join (pushTextParts P d'
                      (find_in P d' body
                         ''h1, h2, h3, h4, h5, h6, p, li, td, th, blockquote, figcaption'') [])
                   [CHR 0x0A, CHR 0x0A])"

text \<open>
  \<^verbatim>\<open>extractPageContent\<close>. It throws only where \<^verbatim>\<open>new URL(url)\<close> does; the full text is
  computed last, after every other read of the document.
\<close>

definition extractPageContent ::
  "('doc, 'el, 'j) platform \<Rightarrow> string \<Rightarrow> string \<Rightarrow> string + 'j PageContent" where
  \<open>extractPageContent P htmlText pageUrl =
     (let d = load P htmlText
      in case parseURL P pageUrl None of
           Inl e \<Rightarrow> Inl e
         | Inr base \<Rightarrow>
             Inr \<lparr>url = pageUrl,
                  path = pathname base,
                  title =
                    or_str (Some (trim (text_all P d (select P d ''title''))))
                      (or_str (Some (trim (text_all P d (take 1 (select P d ''h1'')))))
                         ''Untitled''),
                  description =
                    or_else (attr_first P d (select P d ''meta[name="description"]'') ''content'')
                      (or_else
                         (attr_first P d (select P d ''meta[property="og:description"]'')
                            ''content'')
                         None),
                  headings = pushHeadings P d (select P d ''h1, h2, h3, h4, h5, h6'') [],
                  paragraphs = pushParagraphs P d (select P d ''p'') [],
                  lists = pushLists P d (select P d ''ul, ol'') [],
                  links = pushLinks P d base (select P d ''a[href]'') [],
                  images = pushImages P d (select P d ''img[src]'') [],
                  metadata =
                    \<lparr>charset = attr_first P d (select P d ''meta[charset]'') ''charset'',
                     viewport = attr_first P d (select P d ''meta[name="viewport"]'') ''content'',
                     robots = attr_first P d (select P d ''meta[name="robots"]'') ''content'',
                     canonical = attr_first P d (select P d ''link[rel="canonical"]'') ''href'',
                     ogTitle = attr_first P d (select P d ''meta[property="og:title"]'') ''content'',
                     ogDescription =
                       attr_first P d (select P d ''meta[property="og:description"]'') ''content'',
                     ogImage = attr_first P d (select P d ''meta[property="og:image"]'') ''content'',
                     structuredData = extractStructuredData P d\<rparr>,
                  rawHtml = Some htmlText,
                  extractedText = extractFullText P d\<rparr>)\<close>

section \<open>The digest generator\<close>

text \<open>
  \<^verbatim>\<open>generateLlmsTxt\<close> pushes lines onto an array and joins them with a line feed. The
  two loops over the pages are recursions that carry the array.
\<close>

definition first_of :: "'a list \<Rightarrow> 'a option" where
  "first_of xs = (case xs of [] \<Rightarrow> None | x # _ \<Rightarrow> Some x)"

text \<open>\<^verbatim>\<open>h.level <= 2\<close>; a comparison with \<^verbatim>\<open>NaN\<close> is false.\<close>

definition level_le :: "Heading \<Rightarrow> int \<Rightarrow> bool" where
  "level_le h n = (case level h of None \<Rightarrow> False | Some l \<Rightarrow> l \<le> n)"

fun pushPageList :: "'j PageContent list \<Rightarrow> string list \<Rightarrow> string list" where
  "pushPageList [] lines = lines"
| "pushPageList (page # rest) lines =
     (let lines1 = lines @ [''- ['' @ title page @ '']('' @ url page @ '')'']
      in if truthy (description page)
         then pushPageList rest (lines1 @ [''  '' @ the (description page)])
         else pushPageList rest lines1)"

fun pushBullets :: "Heading list \<Rightarrow> string list \<Rightarrow> string list" where
  "pushBullets [] lines = lines"
| "pushBullets (h # hs) lines = pushBullets hs (lines @ [''- '' @ htext h])"

fun pushContent :: "'j PageContent list \<Rightarrow> string list \<Rightarrow> string list" where
  "pushContent [] lines = lines"
| "pushContent (page # rest) lines =
     (if length (headings page) > 0 \<or> length (paragraphs page) > 0
      then
        (let lines1 = lines @ [''### '' @ title page, ''URL: '' @ url page, ''''];
             lines2 = pushBullets (filter (\<lambda>h. level_le h 2) (headings page)) lines1;
             lines3 =
               (if truthy (first_of (paragraphs page))
                then lines2 @
                  ['''',
                   substring0 (the (first_of (paragraphs page))) 300 @
                     (if length (the (first_of (paragraphs page))) > 300 then ''...'' else '''')]
                else lines2)
         in pushContent rest (lines3 @ ['''']))
      else pushContent rest lines)"

definition digestLines ::
  "url_parser \<Rightarrow> 'j PageContent list \<Rightarrow> string \<Rightarrow> string + string list" where
  "digestLines newURL ps base =
     (case newURL base None of
        Inl e \<Rightarrow> Inl e
      | Inr u \<Rightarrow>
          (let domain = hostname u;
               lines0 = [''# '' @ domain, ''''];
               homepage = find (\<lambda>p. path p = ''/'' \<or> path p = '''') ps;
               lines1 =
                 (if truthy (case homepage of None \<Rightarrow> None | Some hp \<Rightarrow> description hp)
                  then lines0 @ [''> '' @ the (description (the homepage)), '''']
                  else lines0);
               lines2 = lines1 @ [''## Seiten / Pages'', ''''];
               lines3 = pushPageList ps lines2 @ [''''];
               lines4 = lines3 @ [''## Inhalt / Content'', '''']
           in Inr (pushContent ps lines4)))"

definition generateLlmsTxt ::
  "url_parser \<Rightarrow> 'j PageContent list \<Rightarrow> string \<Rightarrow> string + string" where
  "generateLlmsTxt newURL ps base =
     (case digestLines newURL ps base of
        Inl e \<Rightarrow> Inl e
      | Inr lines \<Rightarrow> Inr (join lines [CHR 0x0A]))"

section \<open>The sitemap\<close>

text \<open>
  \<^verbatim>\<open>Array.prototype.sort\<close> with a comparator is stable, and the stable sort of a list
  under a consistent comparator is unique; it is computed here by insertion from the
  right, an element going before the first one it does not compare greater than.
\<close>

fun insert_cmp :: "('a \<Rightarrow> 'a \<Rightarrow> int) \<Rightarrow> 'a \<Rightarrow> 'a list \<Rightarrow> 'a list" where
  "insert_cmp cmp x [] = [x]"
| "insert_cmp cmp x (y # ys) =
     (if cmp x y \<le> 0 then x # y # ys else y # insert_cmp cmp x ys)"

definition sort_cmp :: "('a \<Rightarrow> 'a \<Rightarrow> int) \<Rightarrow> 'a list \<Rightarrow> 'a list" where
  "sort_cmp cmp xs = foldr (insert_cmp cmp) xs []"

definition sitemapEntry :: "'j PageContent \<Rightarrow> SitemapEntry" where
  "sitemapEntry p =
     \<lparr>entry_url = url p,
      entry_title = title p,
      depth = length (case match_g (path p) CHR ''/'' of None \<Rightarrow> [] | Some ms \<Rightarrow> ms)\<rparr>"

definition buildSitemap :: "'j PageContent list \<Rightarrow> SitemapEntry list" where
  "buildSitemap ps =
     sort_cmp (\<lambda>a b. int (depth a) - int (depth b)) (map sitemapEntry ps)"

section \<open>The orchestrator\<close>

text \<open>
  \<^verbatim>\<open>fetchWebsite\<close> awaits the scraper and the file system. Their outcomes in one run are
  the fields of a \<open>world\<close>; a call that rejects is \<open>Inl\<close> (or \<open>Some\<close>) the text of what it
  threw:
  \<^item> \<open>prepare\<close>: the \<^verbatim>\<open>ensureDir\<close> and \<^verbatim>\<open>remove\<close> calls before the \<^verbatim>\<open>try\<close> block;
  \<^item> \<open>scrape\<close>: the scraper, given the admission predicate; it returns the number of
    resources;
  \<^item> \<open>htmlFilesFound\<close>, \<open>allFilesFound\<close>: \<^verbatim>\<open>findHtmlFiles\<close> and \<^verbatim>\<open>findAllFiles\<close> on the
    asset directory, each file with its path relative to that directory;
  \<^item> \<open>readFile\<close>, \<open>stat\<close>: per file; \<open>savePage\<close>: writing one page's JSON;
  \<^item> \<open>persist\<close>: the writes after the \<^verbatim>\<open>try\<close> block; \<open>now\<close>: the time stamp.
  The options that only configure the scraper are not part of the model, nor is the
  Markdown report, which goes to a file and not into the result.
\<close>

record world =
  prepare :: "string option"
  scrape :: "string + nat"
  htmlFilesFound :: "string + (string \<times> string) list"
  allFilesFound :: "string + (string \<times> string) list"
  readFile :: "string \<Rightarrow> string + string"
  savePage :: "string \<Rightarrow> string option"
  stat :: "string \<Rightarrow> string + nat"
  persist :: "string option"
  now :: string

record FetchOptions =
  opt_url :: string
  opt_outputDir :: string
  opt_extractContent :: bool
  opt_generateLlmsTxt :: bool

text \<open>The three arrays a run fills.\<close>

record 'j run =
  run_pages :: "'j PageContent list"
  run_assets :: "AssetInfo list"
  run_errors :: "string list"

definition extraction_error :: "string \<Rightarrow> string \<Rightarrow> string" where
  "extraction_error htmlFile e = ''Error extracting '' @ htmlFile @ '': '' @ e"

text \<open>
  The loop over the HTML files. Its \<^verbatim>\<open>try\<close> is inside the loop body: whatever throws
  there is recorded and the loop goes on. The page is pushed before its JSON is saved.
\<close>

fun extractFiles ::
  "('doc, 'el, 'j) platform \<Rightarrow> world \<Rightarrow> string \<Rightarrow> (string \<times> string) list \<Rightarrow> 'j run \<Rightarrow> 'j run"
  where
  "extractFiles P w seed [] r = r"
| "extractFiles P w seed ((htmlFile, relativePath) # fs) r =
     (case readFile w htmlFile of
        Inl e \<Rightarrow>
          extractFiles P w seed fs (r\<lparr>run_errors := run_errors r @ [extraction_error htmlFile e]\<rparr>)
      | Inr htmlText \<Rightarrow>
          (case reconstructUrl (parseURL P) seed relativePath of
             Inl e \<Rightarrow>
               extractFiles P w seed fs
                 (r\<lparr>run_errors := run_errors r @ [extraction_error htmlFile e]\<rparr>)
           | Inr pageUrl \<Rightarrow>
               (case extractPageContent P htmlText pageUrl of
                  Inl e \<Rightarrow>
                    extractFiles P w seed fs
                      (r\<lparr>run_errors := run_errors r @ [extraction_error htmlFile e]\<rparr>)
                | Inr pageContent \<Rightarrow>
                    (let r1 = r\<lparr>run_pages := run_pages r @ [pageContent]\<rparr>
                     in case savePage w relativePath of
                          Some e \<Rightarrow>
                            extractFiles P w seed fs
                              (r1\<lparr>run_errors := run_errors r1 @ [extraction_error htmlFile e]\<rparr>)
                        | None \<Rightarrow> extractFiles P w seed fs r1))))"

definition assetType :: "string \<Rightarrow> AssetType" where
  "assetType ext =
     (if ext \<in> set [''.css''] then css
      else if ext \<in> set [''.js''] then js
      else if ext \<in> set [''.jpg'', ''.jpeg'', ''.png'', ''.gif'', ''.svg'', ''.webp'', ''.ico'']
      then image
      else if ext \<in> set [''.woff'', ''.woff2'', ''.ttf'', ''.eot'', ''.otf''] then font
      else other)"

text \<open>
  The loop over all files has no \<^verbatim>\<open>try\<close> of its own: the first throw leaves it, with
  the assets pushed so far, for the outer \<^verbatim>\<open>catch\<close>.
\<close>

fun catalogAssets ::
  "('doc, 'el, 'j) platform \<Rightarrow> world \<Rightarrow> string \<Rightarrow> (string \<times> string) list \<Rightarrow> 'j run \<Rightarrow>
     string option \<times> 'j run" where
  "catalogAssets P w seed [] r = (None, r)"
| "catalogAssets P w seed ((file, relativePath) # fs) r =
     (let ext = toLowerCase P (extname P file)
      in case stat w file of
           Inl e \<Rightarrow> (Some e, r)
         | Inr sz \<Rightarrow>
             (case reconstructUrl (parseURL P) seed relativePath of
                Inl e \<Rightarrow> (Some e, r)
              | Inr u \<Rightarrow>
                  catalogAssets P w seed fs
                    (r\<lparr>run_assets := run_assets r @
                        [\<lparr>asset_url = u, localPath = relativePath, atype = assetType ext,
                          asize = Some sz\<rparr>]\<rparr>)))"

text \<open>The outer \<^verbatim>\<open>try\<close> block: what it threw, if anything, and the arrays as it left them.\<close>

definition tryScrape ::
  "('doc, 'el, 'j) platform \<Rightarrow> world \<Rightarrow> FetchOptions \<Rightarrow> 'j run \<Rightarrow> string option \<times> 'j run" where
  "tryScrape P w opts r =
     (case scrape w of
        Inl e \<Rightarrow> (Some e, r)
      | Inr n \<Rightarrow>
          (case (if opt_extractContent opts
                 then (case htmlFilesFound w of
                         Inl e \<Rightarrow> (Some e, r)
                       | Inr htmlFiles \<Rightarrow> (None, extractFiles P w (opt_url opts) htmlFiles r))
                 else (None, r)) of
             (Some e, r1) \<Rightarrow> (Some e, r1)
           | (None, r1) \<Rightarrow>
               (case allFilesFound w of
                  Inl e \<Rightarrow> (Some e, r1)
                | Inr allFiles \<Rightarrow> catalogAssets P w (opt_url opts) allFiles r1)))"

text \<open>
  \<^verbatim>\<open>fetchWebsite\<close>: \<open>Inl\<close> when the promise rejects (the seed does not parse, or a call
  outside the \<^verbatim>\<open>try\<close> block throws), else the result.
\<close>

definition fetchWebsite ::
  "('doc, 'el, 'j) platform \<Rightarrow> world \<Rightarrow> FetchOptions \<Rightarrow> string + 'j FetchResult" where
  "fetchWebsite P w opts =
     (case parseURL P (opt_url opts) None of
        Inl e \<Rightarrow> Inl e
      | Inr seedUrl \<Rightarrow>
          (case prepare w of
             Some e \<Rightarrow> Inl e
           | None \<Rightarrow>
               (let r0 = \<lparr>run_pages = [], run_assets = [], run_errors = []\<rparr>;
                    r = (case tryScrape P w opts r0 of
                           (Some e, r1) \<Rightarrow>
                             r1\<lparr>run_errors := run_errors r1 @ [''Scraping error: '' @ e]\<rparr>
                         | (None, r1) \<Rightarrow> r1)
                in case (if opt_generateLlmsTxt opts
                         then generateLlmsTxt (parseURL P) (run_pages r) (opt_url opts)
                         else Inr []) of
                     Inl e \<Rightarrow> Inl e
                   | Inr llms \<Rightarrow>
                       (let content =
                              \<lparr>baseUrl = opt_url opts,
                               fetchedAt = now w,
                               totalPages = length (run_pages r),
                               totalAssets = length (run_assets r),
                               pages = run_pages r,
                               assets = run_assets r,
                               sitemap = buildSitemap (run_pages r),
                               suggestedLlmsTxt = llms\<rparr>
                        in case persist w of
                             Some e \<Rightarrow> Inl e
                           | None \<Rightarrow>
                               Inr \<lparr>success = (length (run_errors r) = 0),
                                    siteContent = content,
                                    outputDir = opt_outputDir opts,
                                    errors = run_errors r\<rparr>))))"

section \<open>The earlier revision of the crawler\<close>

text \<open>
  The repository holds a second, earlier \<^verbatim>\<open>crawler.ts\<close>. Its \<^verbatim>\<open>buildSitemap\<close> and the
  result of its \<^verbatim>\<open>fetchWebsite\<close> are as above; its filter compares the host names as
  they are and rejects what does not parse, and its \<^verbatim>\<open>reconstructUrl\<close> strips no host
  folder.
\<close>

definition urlFilter_legacy :: "url_parser \<Rightarrow> URL \<Rightarrow> string \<Rightarrow> bool" where
  "urlFilter_legacy newURL seedUrl resourceUrl =
     (case newURL resourceUrl None of
        Inr resUrl \<Rightarrow> hostname resUrl = hostname seedUrl
      | Inl _ \<Rightarrow> False)"

definition reconstructUrl_legacy :: "url_parser \<Rightarrow> string \<Rightarrow> string \<Rightarrow> string + string" where
  "reconstructUrl_legacy newURL seed relativePath =
     (case newURL seed None of
        Inl e \<Rightarrow> Inl e
      | Inr base \<Rightarrow>
          (if relativePath = ''index.html'' then Inr (origin base @ ''/'')
           else Inr (origin base @ ''/'' @ cleanPath relativePath)))"

section \<open>A sample platform\<close>

text \<open>
  Stand-ins for the platform in the examples below. \<open>sampleURL\<close> splits an absolute URL
  \<^verbatim>\<open>scheme://host/path?query#fragment\<close> whose host is in lower case and has no port and
  no credentials, as the platform's parser does; it rejects every other input.
\<close>

fun splitScheme :: "string \<Rightarrow> (string \<times> string) option" where
  "splitScheme [] = None"
| "splitScheme (c # s) =
     (if startsWith (c # s) ''://'' then Some ([], drop 3 (c # s))
      else map_option (\<lambda>(a, b). (c # a, b)) (splitScheme s))"

definition inHost :: "char \<Rightarrow> bool" where
  "inHost c = (c \<noteq> CHR ''/'' \<and> c \<noteq> CHR ''?'' \<and> c \<noteq> CHR ''#'')"

definition inPath :: "char \<Rightarrow> bool" where
  "inPath c = (c \<noteq> CHR ''?'' \<and> c \<noteq> CHR ''#'')"

definition sampleURL :: url_parser where
  "sampleURL input base =
     (case splitScheme input of
        None \<Rightarrow> Inl ''TypeError: Invalid URL''
      | Some (scheme, rest) \<Rightarrow>
          (let host = takeWhile inHost rest;
               p = takeWhile inPath (dropWhile inHost rest)
           in if scheme = [] \<or> host = [] then Inl ''TypeError: Invalid URL''
              else Inr \<lparr>protocol = scheme @ '':'',
                        hostname = host,
                        pathname = (if p = [] then ''/'' else p),
                        origin = scheme @ ''://'' @ host\<rparr>))"

text \<open>
  A sample document is the list of its elements in document order, each with its tag,
  its attributes and its text; \<open>sampleLoad\<close> looks the parsed document up in a table.
  The selectors are the ones the extractor uses.
\<close>

record sample_el =
  el_tag :: string
  el_attrs :: "(string \<times> string) list"
  el_text :: string

definition sampleMatches :: "string \<Rightarrow> sample_el \<Rightarrow> bool" where
  \<open>sampleMatches sel e =
     (if sel = ''a[href]'' then el_tag e = ''a'' \<and> map_of (el_attrs e) ''href'' \<noteq> None
      else if sel = ''img[src]'' then el_tag e = ''img'' \<and> map_of (el_attrs e) ''src'' \<noteq> None
      else if sel = ''script[type="application/ld+json"]''
      then el_tag e = ''script'' \<and> map_of (el_attrs e) ''type'' = Some ''application/ld+json''
      else if sel = ''h1, h2, h3, h4, h5, h6''
      then el_tag e \<in> set [''h1'', ''h2'', ''h3'', ''h4'', ''h5'', ''h6'']
      else if sel = ''ul, ol'' then el_tag e \<in> set [''ul'', ''ol'']
      else if sel = ''script, style, noscript, iframe''
      then el_tag e \<in> set [''script'', ''style'', ''noscript'', ''iframe'']
      else if sel \<in> set [''title'', ''h1'', ''p'', ''body''] then el_tag e = sel
      else False)\<close>

definition sampleJSON :: "string \<Rightarrow> string option" where
  "sampleJSON s = (if startsWith s ''{'' \<and> endsWith s ''}'' then Some s else None)"

definition samplePlatform ::
  "(string \<times> sample_el list) list \<Rightarrow> (sample_el list, sample_el, string) platform" where
  "samplePlatform table =
     \<lparr>parseURL = sampleURL,
      load = (\<lambda>h. case map_of table h of None \<Rightarrow> [] | Some d \<Rightarrow> d),
      select = (\<lambda>d sel. filter (sampleMatches sel) d),
      find_in = (\<lambda>d els sel. []),
      remove_sel = (\<lambda>d sel. filter (\<lambda>e. \<not> sampleMatches sel e) d),
      tagName = el_tag,
      text_of = (\<lambda>d e. el_text e),
      attr = (\<lambda>d e a. map_of (el_attrs e) a),
      html = (\<lambda>d e. Some (el_text e)),
      JSON_parse = sampleJSON,
      extname = (\<lambda>f. dropWhile (\<lambda>c. c \<noteq> CHR ''.'') f),
      toLowerCase = (\<lambda>s. s)\<rparr>"

text \<open>A world in which every call succeeds and the scraper stored nothing.\<close>

definition quietWorld :: world where
  "quietWorld =
     \<lparr>prepare = None,
      scrape = Inr 0,
      htmlFilesFound = Inr [],
      allFilesFound = Inr [],
      readFile = (\<lambda>f. Inl ''ENOENT''),
      savePage = (\<lambda>f. None),
      stat = (\<lambda>f. Inl ''ENOENT''),
      persist = None,
      now = ''2024-01-01T00:00:00.000Z''\<rparr>"

text \<open>
  A sample page: two paragraphs of 20 and of 21 characters after trimming, three links
  (the first names the page's host in its query only), and two structured-data
  blocks, the first of which is not JSON.
\<close>

definition sampleHtml :: string where
  \<open>sampleHtml =
     ''<title>Home</title><p>exactly twenty chars</p><p> twenty-one characters </p>'' @
     ''<a href="https://other.org/?ref=example.com">Other</a>'' @
     ''<a href="https://other.org/">Far</a><a href="/about">About</a>'' @
     ''<script type="application/ld+json">{</script>'' @
     ''<script type="application/ld+json">{"a":1}</script>''\<close>

definition sampleDoc :: "sample_el list" where
  \<open>sampleDoc =
     [\<lparr>el_tag = ''title'', el_attrs = [], el_text = ''Home''\<rparr>,
      \<lparr>el_tag = ''p'', el_attrs = [], el_text = ''exactly twenty chars''\<rparr>,
      \<lparr>el_tag = ''p'', el_attrs = [], el_text = '' twenty-one characters ''\<rparr>,
      \<lparr>el_tag = ''a'', el_attrs = [(''href'', ''https://other.org/?ref=example.com'')],
        el_text = ''Other''\<rparr>,
      \<lparr>el_tag = ''a'', el_attrs = [(''href'', ''https://other.org/'')], el_text = ''Far''\<rparr>,
      \<lparr>el_tag = ''a'', el_attrs = [(''href'', ''/about'')], el_text = ''About''\<rparr>,
      \<lparr>el_tag = ''script'', el_attrs = [(''type'', ''application/ld+json'')], el_text = ''{''\<rparr>,
      \<lparr>el_tag = ''script'', el_attrs = [(''type'', ''application/ld+json'')],
        el_text = ''{"a":1}''\<rparr>]\<close>

definition samplePages :: "(sample_el list, sample_el, string) platform" where
  "samplePages = samplePlatform [(sampleHtml, sampleDoc)]"

text \<open>A world in which the scraper stored that one page and every call succeeds.\<close>

definition sampleWorld :: world where
  "sampleWorld =
     \<lparr>prepare = None,
      scrape = Inr 1,
      htmlFilesFound = Inr [(''out/assets/example.com/index.html'', ''example.com/index.html'')],
      allFilesFound = Inr [(''out/assets/example.com/index.html'', ''example.com/index.html'')],
      readFile = (\<lambda>f. if f = ''out/assets/example.com/index.html'' then Inr sampleHtml
                       else Inl ''ENOENT''),
      savePage = (\<lambda>f. None),
      stat = (\<lambda>f. Inr 256),
      persist = None,
      now = ''2024-01-01T00:00:00.000Z''\<rparr>"

definition sampleOptions :: FetchOptions where
  "sampleOptions =
     \<lparr>opt_url = ''https://example.com/'', opt_outputDir = ''out'',
      opt_extractContent = True, opt_generateLlmsTxt = True\<rparr>"

text \<open>A page record with the fields the digest reads, the others empty.\<close>

definition samplePage ::
  "string \<Rightarrow> string \<Rightarrow> string \<Rightarrow> string option \<Rightarrow> Heading list \<Rightarrow> string list \<Rightarrow>
     string PageContent" where
  "samplePage u p t d hs ps =
     \<lparr>url = u, path = p, title = t, description = d, headings = hs, paragraphs = ps,
      lists = [], links = [], images = [],
      metadata =
        \<lparr>charset = None, viewport = None, robots = None, canonical = None, ogTitle = None,
         ogDescription = None, ogImage = None, structuredData = []\<rparr>,
      rawHtml = None, extractedText = []\<rparr>"

section \<open>Runs that differ in the structured data only\<close>

text \<open>
  \<open>no_data\<close> forgets the structured data of a page; two states of a run are the same but
  for the structured data when their errors and assets agree and their pages agree
  once that is forgotten.
\<close>

definition no_data :: "'j PageContent \<Rightarrow> 'j PageContent" where
  "no_data page = page\<lparr>metadata := (metadata page)\<lparr>structuredData := []\<rparr>\<rparr>"

definition same_run :: "'j run \<Rightarrow> 'j run \<Rightarrow> bool" where
  "same_run r' r =
     (run_errors r' = run_errors r \<and> run_assets r' = run_assets r \<and>
      map no_data (run_pages r') = map no_data (run_pages r))"

section \<open>Facts about the string functions\<close>

lemma startsWith_Nil [simp]: "startsWith s []"
  by (simp add: startsWith_def)

lemma startsWith_append [simp]: "startsWith (p @ s) p"
  by (simp add: startsWith_def)

lemma startsWith_app_left:
  assumes "startsWith s (p @ q)"
  shows "startsWith s p"
proof -
  have "take (length (p @ q)) s = p @ q"
    using assms by (simp add: startsWith_def)
  then have "take (length p) (take (length (p @ q)) s) = take (length p) (p @ q)"
    by (simp only:)
  then show ?thesis
    by (simp add: startsWith_def min_def)
qed

lemma normalizeHostname_www:
  "normalizeHostname (CHR ''w'' # CHR ''w'' # CHR ''w'' # CHR ''.'' # h) = h"
  by (simp add: normalizeHostname_def startsWith_def)

lemma normalizeHostname_plain: "\<not> startsWith h ''www.'' \<Longrightarrow> normalizeHostname h = h"
  by (simp add: normalizeHostname_def)

lemma hostname_cases:
  "hostname base = normalizeHostname (hostname base) \<or>
   hostname base = ''www.'' @ normalizeHostname (hostname base)"
proof (cases "startsWith (hostname base) ''www.''")
  case True
  then have "take 4 (hostname base) = ''www.''"
    by (simp add: startsWith_def eval_nat_numeral)
  then have "hostname base = ''www.'' @ drop 4 (hostname base)"
    by (metis append_take_drop_id)
  then show ?thesis using True by (simp add: normalizeHostname_def)
next
  case False
  then show ?thesis by (simp add: normalizeHostname_def)
qed

lemma sample_seed:
  "sampleURL ''https://example.com/'' None =
     Inr \<lparr>protocol = ''https:'', hostname = ''example.com'', pathname = ''/'',
          origin = ''https://example.com''\<rparr>"
  by code_simp

section \<open>Admission: a host and its \<open>www.\<close> form\<close>

text \<open>
  Claim C1, as amended. For every seed and every two candidate URLs that both parse,
  have the same protocol and path, and whose host names are \<open>h\<close> and \<open>www.h\<close>, where \<open>h\<close>
  does not itself begin with \<open>www.\<close>, the admission predicate gives the same answer:
  one leading \<open>www.\<close> is removed from each host name before the comparison.
\<close>

theorem admit_www_same_origin:
  assumes "newURL r1 (Some seed) = Inr u1" and "newURL r2 (Some seed) = Inr u2"
    and "hostname u2 = ''www.'' @ hostname u1"
    and "protocol u2 = protocol u1" and "pathname u2 = pathname u1"
    and "\<not> startsWith (hostname u1) ''www.''"
  shows "admit newURL seed r1 = admit newURL seed r2"
  using assms
  by (simp add: admit_def urlFilter_def Let_def normalizeHostname_www normalizeHostname_plain
           split: sum.splits)

theorem admit_www_same_origin_witness:
  "admit sampleURL ''https://example.com/'' ''https://example.com/a'' =
     admit sampleURL ''https://example.com/'' ''https://www.example.com/a'' \<and>
   admit sampleURL ''https://example.com/'' ''https://www.example.com/a'' = Inr True"
proof -
  have p1: "sampleURL ''https://example.com/a'' (Some ''https://example.com/'') =
      Inr \<lparr>protocol = ''https:'', hostname = ''example.com'', pathname = ''/a'',
           origin = ''https://example.com''\<rparr>"
    by code_simp
  have p2: "sampleURL ''https://www.example.com/a'' (Some ''https://example.com/'') =
      Inr \<lparr>protocol = ''https:'', hostname = ''www.example.com'', pathname = ''/a'',
           origin = ''https://www.example.com''\<rparr>"
    by code_simp
  have "admit sampleURL ''https://example.com/'' ''https://example.com/a'' =
     admit sampleURL ''https://example.com/'' ''https://www.example.com/a''"
    by (rule admit_www_same_origin
          [where newURL = sampleURL and seed = "''https://example.com/''"
             and ?r1.0 = "''https://example.com/a''" and ?r2.0 = "''https://www.example.com/a''",
           OF p1 p2])
       (simp_all add: startsWith_def)
  moreover have
    "admit sampleURL ''https://example.com/'' ''https://www.example.com/a'' = Inr True"
    by code_simp
  ultimately show ?thesis by (simp only: simp_thms)
qed

text \<open>
  The claim as stated, for every host name, fails where \<open>h\<close> is \<open>www.example.com\<close>: a
  run seeded on \<open>example.com\<close> admits a URL on \<open>h\<close> and rejects the same URL on \<open>www.h\<close>,
  of which only the first \<open>www.\<close> is removed.
\<close>

theorem admit_www_counterexample:
  "admit sampleURL ''https://example.com/'' ''https://www.example.com/a'' = Inr True \<and>
   admit sampleURL ''https://example.com/'' ''https://www.www.example.com/a'' = Inr False"
  by code_simp

text \<open>The earlier filter tells the host from its \<open>www.\<close> form.\<close>

lemma urlFilter_legacy_www:
  "urlFilter_legacy sampleURL
     \<lparr>protocol = ''https:'', hostname = ''example.com'', pathname = ''/'',
      origin = ''https://example.com''\<rparr> ''https://example.com/a'' \<and>
   \<not> urlFilter_legacy sampleURL
     \<lparr>protocol = ''https:'', hostname = ''example.com'', pathname = ''/'',
      origin = ''https://example.com''\<rparr> ''https://www.example.com/a''"
  by code_simp

section \<open>Reconstruction of the URL of a stored file\<close>

lemma stripHostFolder_unchanged:
  "\<forall>v \<in> set vs. \<not> startsWith p v \<Longrightarrow> stripHostFolder vs p = p"
  by (induction vs) (auto dest: startsWith_app_left)

lemma hostname_variants:
  "set (hostVariants base) =
     {normalizeHostname (hostname base), ''www.'' @ normalizeHostname (hostname base)}"
  using hostname_cases [of base] by (auto simp: hostVariants_def)

lemma reconstruct_not_prefix:
  assumes "newURL seed None = Inr base"
    and "\<not> startsWith p (normalizeHostname (hostname base))"
    and "\<not> startsWith p ''w''"
  shows "reconstructUrl newURL seed p =
           Inr (if p = ''index.html'' \<or> p = [] then origin base @ ''/''
                else origin base @ ''/'' @ cleanPath p)"
proof -
  have "\<not> startsWith p (''www.'' @ normalizeHostname (hostname base))"
    using assms(3) startsWith_app_left [of p "''w''" "''ww.'' @ normalizeHostname (hostname base)"]
    by auto
  then have "stripHostFolder (hostVariants base) p = p"
    using assms(2) by (intro stripHostFolder_unchanged) (simp add: hostname_variants)
  then show ?thesis using assms(1) by (simp add: reconstructUrl_def Let_def)
qed

text \<open>
  Claim C2, as amended. For every seed URL that parses: if its host name, less one
  leading \<open>www.\<close>, is not a prefix of \<^verbatim>\<open>index.html\<close>, then that path gives the origin
  followed by a slash; if it is not a prefix of \<^verbatim>\<open>about.html\<close>, then that path gives
  the origin followed by \<^verbatim>\<open>/about\<close>; and whenever the path left after the host folder
  is stripped is empty or \<^verbatim>\<open>index.html\<close>, the result is the origin followed by a slash.
\<close>

theorem reconstructUrl_index_about:
  assumes "newURL seed None = Inr base"
  shows "(\<not> startsWith ''index.html'' (normalizeHostname (hostname base)) \<longrightarrow>
            reconstructUrl newURL seed ''index.html'' = Inr (origin base @ ''/'')) \<and>
         (\<not> startsWith ''about.html'' (normalizeHostname (hostname base)) \<longrightarrow>
            reconstructUrl newURL seed ''about.html'' = Inr (origin base @ ''/about'')) \<and>
         (stripHostFolder (hostVariants base) relativePath = [] \<or>
          stripHostFolder (hostVariants base) relativePath = ''index.html'' \<longrightarrow>
            reconstructUrl newURL seed relativePath = Inr (origin base @ ''/''))"
proof (intro conjI impI)
  assume "\<not> startsWith ''index.html'' (normalizeHostname (hostname base))"
  from reconstruct_not_prefix
         [where newURL = newURL and seed = seed and base = base and p = "''index.html''",
          OF assms this]
  show "reconstructUrl newURL seed ''index.html'' = Inr (origin base @ ''/'')"
    by (simp add: startsWith_def)
next
  assume "\<not> startsWith ''about.html'' (normalizeHostname (hostname base))"
  from reconstruct_not_prefix
         [where newURL = newURL and seed = seed and base = base and p = "''about.html''",
          OF assms this]
  show "reconstructUrl newURL seed ''about.html'' = Inr (origin base @ ''/about'')"
    by (simp add: startsWith_def cleanPath_def replaceAtEnd_def endsWith_def)
next
  assume "stripHostFolder (hostVariants base) relativePath = [] \<or>
          stripHostFolder (hostVariants base) relativePath = ''index.html''"
  then show "reconstructUrl newURL seed relativePath = Inr (origin base @ ''/'')"
    using assms by (auto simp: reconstructUrl_def Let_def)
qed

theorem reconstructUrl_index_about_witness:
  "reconstructUrl sampleURL ''https://example.com/'' ''index.html'' =
     Inr ''https://example.com/'' \<and>
   reconstructUrl sampleURL ''https://example.com/'' ''about.html'' =
     Inr ''https://example.com/about'' \<and>
   reconstructUrl sampleURL ''https://example.com/'' ''example.com/index.html'' =
     Inr ''https://example.com/''"
proof -
  have s: "stripHostFolder
      (hostVariants \<lparr>protocol = ''https:'', hostname = ''example.com'', pathname = ''/'',
          origin = ''https://example.com''\<rparr>) ''example.com/index.html'' = ''index.html''"
    by code_simp
  have n: "normalizeHostname ''example.com'' = ''example.com''"
    by code_simp
  show ?thesis
    using reconstructUrl_index_about
            [where newURL = sampleURL and seed = "''https://example.com/''"
               and relativePath = "''example.com/index.html''", OF sample_seed] s
    by (simp add: n startsWith_def)
qed

text \<open>
  The claim as stated, for every seed, fails for the seed \<^verbatim>\<open>http://about/\<close>: its host
  name is a prefix of \<^verbatim>\<open>about.html\<close> and is stripped from it, so that the result is
  the origin followed by a slash and not by \<^verbatim>\<open>/about\<close>.
\<close>

theorem reconstructUrl_about_counterexample:
  "sampleURL ''http://about/'' None =
     Inr \<lparr>protocol = ''http:'', hostname = ''about'', pathname = ''/'',
          origin = ''http://about''\<rparr> \<and>
   reconstructUrl sampleURL ''http://about/'' ''about.html'' = Inr ''http://about/'' \<and>
   ''http://about/'' \<noteq> ''http://about'' @ ''/about''"
  by code_simp

text \<open>The earlier \<^verbatim>\<open>reconstructUrl\<close> strips no host folder, whatever the seed.\<close>

lemma reconstructUrl_legacy_index_about:
  assumes "newURL seed None = Inr base"
  shows "reconstructUrl_legacy newURL seed ''index.html'' = Inr (origin base @ ''/'') \<and>
         reconstructUrl_legacy newURL seed ''about.html'' = Inr (origin base @ ''/about'')"
  using assms
  by (simp add: reconstructUrl_legacy_def cleanPath_def replaceAtEnd_def endsWith_def)

text \<open>
  Claim C9, as amended. For every seed URL with host name \<open>H\<close> and every path \<open>H @ r\<close>
  whose first segment goes on after \<open>H\<close> (\<open>r\<close> is not empty and does not begin with a
  slash), exactly the first \<open>length H\<close> characters are stripped, as if they were the
  host folder: the result is that for the path \<open>H/r\<close>, namely the origin followed by a
  slash when \<open>r\<close> is \<^verbatim>\<open>index.html\<close>, and otherwise the origin, a slash, and \<open>r\<close> with a
  final \<^verbatim>\<open>/index.html\<close> turned into a slash and a final \<^verbatim>\<open>.html\<close> removed.
\<close>

theorem reconstructUrl_bare_prefix:
  assumes "newURL seed None = Inr base" and "r \<noteq> []" and "hd r \<noteq> CHR ''/''"
  shows "stripHostFolder (hostVariants base) (hostname base @ r) = r \<and>
         reconstructUrl newURL seed (hostname base @ r) =
           Inr (if r = ''index.html'' then origin base @ ''/''
                else origin base @ ''/'' @ cleanPath r) \<and>
         reconstructUrl newURL seed (hostname base @ r) =
           reconstructUrl newURL seed (hostname base @ ''/'' @ r)"
proof -
  obtain c cs where r: "r = c # cs" and c: "c \<noteq> CHR ''/''"
    using assms(2,3) by (cases r) auto
  have 1: "stripHostFolder (hostVariants base) (hostname base @ r) = r"
    using c by (simp add: hostVariants_def r startsWith_def slice_def)
  have 2: "stripHostFolder (hostVariants base) (hostname base @ ''/'' @ r) = r"
    by (simp add: hostVariants_def startsWith_def slice_def)
  show ?thesis
    using assms(1,2) 1 2 by (simp add: reconstructUrl_def Let_def)
qed

theorem reconstructUrl_bare_prefix_witness:
  "reconstructUrl sampleURL ''https://example.com/'' ''example.communication/x.html'' =
     Inr ''https://example.com/munication/x'' \<and>
   reconstructUrl sampleURL ''https://example.com/'' ''example.communication/x.html'' =
     reconstructUrl sampleURL ''https://example.com/'' ''example.com/munication/x.html''"
proof -
  have c: "cleanPath ''munication/x.html'' = ''munication/x''"
    by code_simp
  have e: "reconstructUrl sampleURL ''https://example.com/'' ''example.com/munication/x.html'' =
      Inr ''https://example.com/munication/x''"
    by code_simp
  show ?thesis
    using reconstructUrl_bare_prefix
            [where newURL = sampleURL and seed = "''https://example.com/''"
               and r = "''munication/x.html''", OF sample_seed]
    by (simp add: c e)
qed

text \<open>
  The claim as stated ends: the returned URL is the origin, a slash and the rest of the
  segment. For the host \<^verbatim>\<open>example.com\<close> and the one-segment path
  \<^verbatim>\<open>example.comindex.html\<close> the rest of the segment is \<^verbatim>\<open>index.html\<close>, and the URL
  returned is the origin and a slash: it neither is nor begins with the URL claimed.
\<close>

theorem reconstructUrl_bare_prefix_counterexample:
  "reconstructUrl sampleURL ''https://example.com/'' ''example.comindex.html'' =
     Inr ''https://example.com/'' \<and>
   ''https://example.com/'' \<noteq> ''https://example.com'' @ ''/'' @ ''index.html'' \<and>
   \<not> startsWith ''https://example.com/'' (''https://example.com'' @ ''/'' @ ''index.html'')"
  by code_simp

section \<open>The extractor's loops in closed form\<close>

lemma sample_page_url:
  "parseURL samplePages ''https://example.com/'' None =
     Inr \<lparr>protocol = ''https:'', hostname = ''example.com'', pathname = ''/'',
          origin = ''https://example.com''\<rparr>"
  by (simp add: samplePages_def samplePlatform_def sample_seed)

lemma pushParagraphs_eq:
  "pushParagraphs P d els acc =
     acc @ filter (\<lambda>t. 20 < length t) (map (\<lambda>el. trim (text_of P d el)) els)"
  by (induction els arbitrary: acc) (auto simp: Let_def)

lemma pushLinks_eq:
  "pushLinks P d base els acc =
     acc @ map (\<lambda>el. \<lparr>href = or_str (attr P d el ''href'') [],
                       ltext = trim (text_of P d el),
                       isExternal = (startsWith (or_str (attr P d el ''href'') []) ''http'' \<and>
                          \<not> includes_str (or_str (attr P d el ''href'') []) (hostname base))\<rparr>)
             (filter (\<lambda>el. or_str (attr P d el ''href'') [] \<noteq> [] \<and>
                       \<not> startsWith (or_str (attr P d el ''href'') []) ''#'' \<and>
                       \<not> startsWith (or_str (attr P d el ''href'') []) ''javascript:'') els)"
  by (induction els arbitrary: acc) (auto simp: Let_def)

lemma pushStructuredData_eq:
  "pushStructuredData P d els acc =
     acc @ List.map_filter (JSON_parse P) (map (\<lambda>el. or_str (html P d el) []) els)"
  by (induction els arbitrary: acc) (auto simp: List.map_filter_simps split: option.splits)

section \<open>Paragraphs: longer than 20 characters, in document order\<close>

text \<open>
  Claim C5. For every HTML text and every page URL that parses, extraction returns a
  record whose paragraphs are the trimmed texts of the paragraph elements, in document
  order, that are strictly longer than 20 characters: a trimmed text of 20 characters
  is left out, one of 21 is kept.
\<close>

theorem extract_paragraphs_longer_than_20:
  assumes "parseURL P pageUrl None = Inr u"
  shows "\<exists>page. extractPageContent P h pageUrl = Inr page \<and>
           paragraphs page =
             filter (\<lambda>t. 20 < length t)
               (map (\<lambda>el. trim (text_of P (load P h) el)) (select P (load P h) ''p''))"
  using assms by (simp add: extractPageContent_def Let_def pushParagraphs_eq)

theorem extract_paragraphs_witness:
  "length ''exactly twenty chars'' = 20 \<and> length ''twenty-one characters'' = 21 \<and>
   map (\<lambda>el. trim (text_of samplePages (load samplePages sampleHtml) el))
     (select samplePages (load samplePages sampleHtml) ''p'') =
     [''exactly twenty chars'', ''twenty-one characters''] \<and>
   map_sum id paragraphs (extractPageContent samplePages sampleHtml ''https://example.com/'') =
     Inr [''twenty-one characters'']"
proof -
  have m: "map (\<lambda>el. trim (text_of samplePages (load samplePages sampleHtml) el))
     (select samplePages (load samplePages sampleHtml) ''p'') =
     [''exactly twenty chars'', ''twenty-one characters'']"
    by code_simp
  obtain page where
    p: "extractPageContent samplePages sampleHtml ''https://example.com/'' = Inr page" and
    q: "paragraphs page =
          filter (\<lambda>t. 20 < length t)
            (map (\<lambda>el. trim (text_of samplePages (load samplePages sampleHtml) el))
               (select samplePages (load samplePages sampleHtml) ''p''))"
    using extract_paragraphs_longer_than_20
            [where P = samplePages and pageUrl = "''https://example.com/''" and h = sampleHtml,
             OF sample_page_url]
    by blast
  show ?thesis
    using p q by (simp add: m)
qed

section \<open>Links: the external flag\<close>

text \<open>
  Claim C3, as amended. For every page URL that parses and every link that extraction
  collects, the flag \<open>isExternal\<close> is true if and only if the href begins with
  \<^verbatim>\<open>http\<close> and the href, the whole string and not its host part alone, does not
  contain the page's host name.
\<close>

theorem extract_links_isExternal:
  assumes "parseURL P pageUrl None = Inr u"
  shows "\<exists>page. extractPageContent P h pageUrl = Inr page \<and>
           (\<forall>l \<in> set (links page).
              isExternal l \<longleftrightarrow>
                startsWith (href l) ''http'' \<and> \<not> includes_str (href l) (hostname u))"
  using assms by (auto simp add: extractPageContent_def Let_def pushLinks_eq)

lemma sample_links:
  "map_sum id links (extractPageContent samplePages sampleHtml ''https://example.com/'') =
     Inr [\<lparr>href = ''https://other.org/?ref=example.com'', ltext = ''Other'',
            isExternal = False\<rparr>,
          \<lparr>href = ''https://other.org/'', ltext = ''Far'', isExternal = True\<rparr>,
          \<lparr>href = ''/about'', ltext = ''About'', isExternal = False\<rparr>]"
  by code_simp

theorem extract_links_isExternal_witness:
  "map_sum id (\<lambda>page. map isExternal (links page))
     (extractPageContent samplePages sampleHtml ''https://example.com/'') =
     Inr [False, True, False] \<and>
   map_sum id
     (\<lambda>page. map (\<lambda>l. startsWith (href l) ''http'' \<and> \<not> includes_str (href l) ''example.com'')
        (links page))
     (extractPageContent samplePages sampleHtml ''https://example.com/'') =
     Inr [False, True, False]"
proof -
  obtain page where
    p: "extractPageContent samplePages sampleHtml ''https://example.com/'' = Inr page" and
    q: "\<forall>l \<in> set (links page).
          isExternal l \<longleftrightarrow>
            startsWith (href l) ''http'' \<and> \<not> includes_str (href l) ''example.com''"
    using extract_links_isExternal
            [where P = samplePages and pageUrl = "''https://example.com/''" and h = sampleHtml,
             OF sample_page_url]
    by auto
  have e: "map isExternal (links page) = [False, True, False]"
    using sample_links p by simp
  have "map (\<lambda>l. startsWith (href l) ''http'' \<and> \<not> includes_str (href l) ''example.com'')
          (links page) = map isExternal (links page)"
    using q by simp
  then show ?thesis
    using p e by simp
qed

text \<open>
  The claim as stated reads the host of the href. The first link of the sample page
  begins with \<^verbatim>\<open>http\<close> and its host, \<^verbatim>\<open>other.org\<close>, does not contain the page's host name
  \<^verbatim>\<open>example.com\<close>, yet the link is not external: its query does.
\<close>

theorem extract_links_host_counterexample:
  "map_sum id (\<lambda>page. map (\<lambda>l. (href l, isExternal l)) (take 1 (links page)))
     (extractPageContent samplePages sampleHtml ''https://example.com/'') =
     Inr [(''https://other.org/?ref=example.com'', False)] \<and>
   startsWith ''https://other.org/?ref=example.com'' ''http'' \<and>
   map_sum id hostname (sampleURL ''https://other.org/?ref=example.com'' None) =
     Inr ''other.org'' \<and>
   map_sum id hostname (sampleURL ''https://example.com/'' None) = Inr ''example.com'' \<and>
   \<not> includes_str ''other.org'' ''example.com''"
  by code_simp

section \<open>Structured data: a block that does not parse is skipped\<close>

text \<open>Nothing but the structured data of a page depends on the JSON parser.\<close>

lemma pushHeadings_json [simp]:
  "pushHeadings (P\<lparr>JSON_parse := jp\<rparr>) d els acc = pushHeadings P d els acc"
  by (induction els arbitrary: acc) (simp_all add: Let_def)

lemma pushParagraphs_json [simp]:
  "pushParagraphs (P\<lparr>JSON_parse := jp\<rparr>) d els acc = pushParagraphs P d els acc"
  by (induction els arbitrary: acc) (simp_all add: Let_def)

lemma pushItems_json [simp]:
  "pushItems (P\<lparr>JSON_parse := jp\<rparr>) d els acc = pushItems P d els acc"
  by (induction els arbitrary: acc) (simp_all add: Let_def)

lemma pushLists_json [simp]:
  "pushLists (P\<lparr>JSON_parse := jp\<rparr>) d els acc = pushLists P d els acc"
  by (induction els arbitrary: acc) (simp_all add: Let_def)

lemma pushLinks_json [simp]:
  "pushLinks (P\<lparr>JSON_parse := jp\<rparr>) d b els acc = pushLinks P d b els acc"
  by (induction els arbitrary: acc) (simp_all add: Let_def)

lemma pushImages_json [simp]:
  "pushImages (P\<lparr>JSON_parse := jp\<rparr>) d els acc = pushImages P d els acc"
  by (induction els arbitrary: acc) (simp_all add: Let_def)

lemma pushTextParts_json [simp]:
  "pushTextParts (P\<lparr>JSON_parse := jp\<rparr>) d els acc = pushTextParts P d els acc"
  by (induction els arbitrary: acc) (simp_all add: Let_def)

lemma extractFullText_json [simp]:
  "extractFullText (P\<lparr>JSON_parse := jp\<rparr>) d = extractFullText P d"
  by (simp add: extractFullText_def Let_def)

lemma text_all_json [simp]: "text_all (P\<lparr>JSON_parse := jp\<rparr>) d els = text_all P d els"
  by (simp add: text_all_def)

lemma attr_first_json [simp]:
  "attr_first (P\<lparr>JSON_parse := jp\<rparr>) d els a = attr_first P d els a"
  by (simp add: attr_first_def split: list.splits)

lemma no_data_upd [simp]:
  "no_data (page\<lparr>metadata := (metadata page)\<lparr>structuredData := x\<rparr>\<rparr>) = no_data page"
  by (simp add: no_data_def)

lemma extractPageContent_json:
  "extractPageContent (P\<lparr>JSON_parse := jp\<rparr>) h u =
     (case extractPageContent P h u of
        Inl e \<Rightarrow> Inl e
      | Inr page \<Rightarrow>
          Inr (page\<lparr>metadata := (metadata page)
                 \<lparr>structuredData := extractStructuredData (P\<lparr>JSON_parse := jp\<rparr>) (load P h)\<rparr>\<rparr>))"
  by (simp add: extractPageContent_def Let_def split: sum.splits)

lemma extractFiles_json:
  "same_run r' r \<Longrightarrow>
   same_run (extractFiles (P\<lparr>JSON_parse := jp\<rparr>) w seed fs r') (extractFiles P w seed fs r)"
proof (induction fs arbitrary: r r')
  case Nil
  then show ?case by simp
next
  case (Cons f fs)
  obtain htmlFile relativePath where f: "f = (htmlFile, relativePath)" by (cases f)
  show ?case
  proof (cases "readFile w htmlFile")
    case (Inl e)
    have "same_run (r'\<lparr>run_errors := run_errors r' @ [extraction_error htmlFile e]\<rparr>)
            (r\<lparr>run_errors := run_errors r @ [extraction_error htmlFile e]\<rparr>)"
      using Cons.prems by (simp add: same_run_def)
    from Cons.IH [OF this] show ?thesis using Inl f by simp
  next
    case (Inr htmlText)
    note rd = this
    show ?thesis
    proof (cases "reconstructUrl (parseURL P) seed relativePath")
      case (Inl e)
      have "same_run (r'\<lparr>run_errors := run_errors r' @ [extraction_error htmlFile e]\<rparr>)
              (r\<lparr>run_errors := run_errors r @ [extraction_error htmlFile e]\<rparr>)"
        using Cons.prems by (simp add: same_run_def)
      from Cons.IH [OF this] show ?thesis using Inl f rd by simp
    next
      case (Inr pageUrl)
      note ru = this
      show ?thesis
      proof (cases "extractPageContent P htmlText pageUrl")
        case (Inl e)
        have "same_run (r'\<lparr>run_errors := run_errors r' @ [extraction_error htmlFile e]\<rparr>)
                (r\<lparr>run_errors := run_errors r @ [extraction_error htmlFile e]\<rparr>)"
          using Cons.prems by (simp add: same_run_def)
        from Cons.IH [OF this] show ?thesis
          using Inl f rd ru by (simp add: extractPageContent_json)
      next
        case (Inr page)
        define page' where "page' = page\<lparr>metadata := (metadata page)
          \<lparr>structuredData := extractStructuredData (P\<lparr>JSON_parse := jp\<rparr>) (load P htmlText)\<rparr>\<rparr>"
        have p': "extractPageContent (P\<lparr>JSON_parse := jp\<rparr>) htmlText pageUrl = Inr page'"
          by (simp add: extractPageContent_json Inr page'_def)
        have nd: "no_data page' = no_data page" by (simp add: page'_def)
        show ?thesis
        proof (cases "savePage w relativePath")
          case None
          have "same_run (r'\<lparr>run_pages := run_pages r' @ [page']\<rparr>)
                  (r\<lparr>run_pages := run_pages r @ [page]\<rparr>)"
            using Cons.prems nd by (simp add: same_run_def)
          from Cons.IH [OF this] show ?thesis
            using Inr p' f rd ru None by (simp add: Let_def)
        next
          case (Some e)
          have "same_run
                  (r'\<lparr>run_pages := run_pages r' @ [page'],
                      run_errors := run_errors r' @ [extraction_error htmlFile e]\<rparr>)
                  (r\<lparr>run_pages := run_pages r @ [page],
                      run_errors := run_errors r @ [extraction_error htmlFile e]\<rparr>)"
            using Cons.prems nd by (simp add: same_run_def)
          from Cons.IH [OF this] show ?thesis
            using Inr p' f rd ru Some by (simp add: Let_def)
        qed
      qed
    qed
  qed
qed

lemma catalogAssets_json:
  "same_run r' r \<Longrightarrow>
   fst (catalogAssets (P\<lparr>JSON_parse := jp\<rparr>) w seed fs r') = fst (catalogAssets P w seed fs r) \<and>
   same_run (snd (catalogAssets (P\<lparr>JSON_parse := jp\<rparr>) w seed fs r'))
     (snd (catalogAssets P w seed fs r))"
proof (induction fs arbitrary: r r')
  case Nil
  then show ?case by simp
next
  case (Cons f fs)
  obtain fl relativePath where f: "f = (fl, relativePath)" by (cases f)
  show ?case
  proof (cases "stat w fl")
    case (Inl e)
    then show ?thesis using Cons.prems f by (simp add: Let_def)
  next
    case (Inr sz)
    note st = this
    show ?thesis
    proof (cases "reconstructUrl (parseURL P) seed relativePath")
      case (Inl e)
      then show ?thesis using Cons.prems f st by (simp add: Let_def)
    next
      case (Inr u)
      have "same_run
              (r'\<lparr>run_assets := run_assets r' @
                 [\<lparr>asset_url = u, localPath = relativePath,
                   atype = assetType (toLowerCase P (extname P fl)), asize = Some sz\<rparr>]\<rparr>)
              (r\<lparr>run_assets := run_assets r @
                 [\<lparr>asset_url = u, localPath = relativePath,
                   atype = assetType (toLowerCase P (extname P fl)), asize = Some sz\<rparr>]\<rparr>)"
        using Cons.prems by (simp add: same_run_def)
      from Cons.IH [OF this] show ?thesis using Inr f st by (simp add: Let_def)
    qed
  qed
qed

lemma tryScrape_json:
  assumes "same_run r' r"
  shows "fst (tryScrape (P\<lparr>JSON_parse := jp\<rparr>) w opts r') = fst (tryScrape P w opts r) \<and>
   same_run (snd (tryScrape (P\<lparr>JSON_parse := jp\<rparr>) w opts r')) (snd (tryScrape P w opts r))"
proof (cases "scrape w")
  case (Inl e)
  then show ?thesis using assms by (simp add: tryScrape_def)
next
  case (Inr n)
  note sc = this
  show ?thesis
  proof (cases "opt_extractContent opts")
    case False
    then show ?thesis
      using sc catalogAssets_json [OF assms, where P = P and jp = jp and w = w]
      by (simp add: tryScrape_def assms split: sum.splits)
  next
    case True
    note ec = this
    show ?thesis
    proof (cases "htmlFilesFound w")
      case (Inl e)
      then show ?thesis using sc ec assms by (simp add: tryScrape_def)
    next
      case (Inr htmlFiles)
      have ef: "same_run (extractFiles (P\<lparr>JSON_parse := jp\<rparr>) w (opt_url opts) htmlFiles r')
              (extractFiles P w (opt_url opts) htmlFiles r)"
        by (rule extractFiles_json [OF assms])
      from catalogAssets_json [OF ef, where P = P and jp = jp and w = w] show ?thesis
        using sc ec Inr by (simp add: tryScrape_def ef split: sum.splits)
    qed
  qed
qed

lemma generateLlmsTxt_returns:
  "newURL base None = Inr u \<Longrightarrow> \<exists>t. generateLlmsTxt newURL ps base = Inr t"
  by (simp add: generateLlmsTxt_def digestLines_def Let_def)

lemma fetchWebsite_json:
  fixes P :: "('doc, 'el, 'j) platform"
  shows
  "map_sum id (\<lambda>res. (errors res, success res, totalPages (siteContent res)))
     (fetchWebsite (P\<lparr>JSON_parse := jp\<rparr>) w opts) =
   map_sum id (\<lambda>res. (errors res, success res, totalPages (siteContent res)))
     (fetchWebsite P w opts)"
proof (cases "parseURL P (opt_url opts) None")
  case (Inl e)
  then show ?thesis by (simp add: fetchWebsite_def)
next
  case (Inr seedUrl)
  note su = this
  show ?thesis
  proof (cases "prepare w")
    case (Some e)
    then show ?thesis using su by (simp add: fetchWebsite_def)
  next
    case None
    note pr = this
    define r0 :: "'j run" where "r0 = \<lparr>run_pages = [], run_assets = [], run_errors = []\<rparr>"
    obtain a r1 where t: "tryScrape P w opts r0 = (a, r1)"
      by (cases "tryScrape P w opts r0")
    obtain a' r1' where t': "tryScrape (P\<lparr>JSON_parse := jp\<rparr>) w opts r0 = (a', r1')"
      by (cases "tryScrape (P\<lparr>JSON_parse := jp\<rparr>) w opts r0")
    have "same_run r0 r0" by (simp add: same_run_def)
    from tryScrape_json [OF this, where P = P and jp = jp and w = w and opts = opts] t t'
    have a: "a' = a" and s: "same_run r1' r1" by simp_all
    define r where
      "r = (case a of Some e \<Rightarrow> r1\<lparr>run_errors := run_errors r1 @ [''Scraping error: '' @ e]\<rparr>
            | None \<Rightarrow> r1)"
    define r' where
      "r' = (case a of Some e \<Rightarrow> r1'\<lparr>run_errors := run_errors r1' @ [''Scraping error: '' @ e]\<rparr>
             | None \<Rightarrow> r1')"
    have e: "run_errors r' = run_errors r"
      using s by (simp add: r_def r'_def same_run_def split: option.splits)
    have "map no_data (run_pages r') = map no_data (run_pages r)"
      using s by (simp add: r_def r'_def same_run_def split: option.splits)
    then have "length (map no_data (run_pages r')) = length (map no_data (run_pages r))"
      by (simp only:)
    then have l: "length (run_pages r') = length (run_pages r)"
      by simp
    obtain g where g: "generateLlmsTxt (parseURL P) (run_pages r) (opt_url opts) = Inr g"
      using generateLlmsTxt_returns
              [where newURL = "parseURL P" and base = "opt_url opts", OF su]
      by blast
    obtain g' where g': "generateLlmsTxt (parseURL P) (run_pages r') (opt_url opts) = Inr g'"
      using generateLlmsTxt_returns
              [where newURL = "parseURL P" and base = "opt_url opts", OF su]
      by blast
    have 1: "map_sum id (\<lambda>res. (errors res, success res, totalPages (siteContent res)))
        (fetchWebsite P w opts) =
        (case persist w of Some e \<Rightarrow> Inl e
         | None \<Rightarrow> Inr (run_errors r, length (run_errors r) = 0, length (run_pages r)))"
      using su pr t g
      by (cases a)
         (simp_all add: fetchWebsite_def Let_def r_def r0_def split: option.splits)
    have 2: "map_sum id (\<lambda>res. (errors res, success res, totalPages (siteContent res)))
        (fetchWebsite (P\<lparr>JSON_parse := jp\<rparr>) w opts) =
        (case persist w of Some e \<Rightarrow> Inl e
         | None \<Rightarrow> Inr (run_errors r', length (run_errors r') = 0, length (run_pages r')))"
      using su pr t' g' a
      by (cases a)
         (simp_all add: fetchWebsite_def Let_def r'_def r0_def split: option.splits)
    show ?thesis
      by (simp only: 1 2 e l)
  qed
qed

text \<open>
  Claim C8. Each \<^verbatim>\<open>application/ld+json\<close> block is parsed on its own: the structured
  data are the values of the blocks that parse, in document order. A block that
  does not parse adds no entry and leaves the blocks before and after it as they
  are; extraction of the page still returns a record whenever the page URL parses;
  and whether the run returns, its error list, its success flag and its number of
  pages are the same under any other JSON parser \<open>jp\<close>, so that no block, parsed or
  not, adds an error to the run.
\<close>

theorem structuredData_blocks_independent:
  \<open>extractStructuredData P d =
     List.map_filter (JSON_parse P)
       (map (\<lambda>el. or_str (html P d el) [])
          (select P d ''script[type="application/ld+json"]'')) \<and>
   (select P d ''script[type="application/ld+json"]'' = els1 @ el # els2 \<and>
    JSON_parse P (or_str (html P d el) []) = None \<longrightarrow>
      extractStructuredData P d =
        pushStructuredData P d els1 [] @ pushStructuredData P d els2 []) \<and>
   (parseURL P pageUrl None = Inr u \<longrightarrow>
      (\<exists>page. extractPageContent P h pageUrl = Inr page \<and>
         structuredData (metadata page) = extractStructuredData P (load P h))) \<and>
   map_sum id (\<lambda>res. (errors res, success res, totalPages (siteContent res)))
     (fetchWebsite (P\<lparr>JSON_parse := jp\<rparr>) w opts) =
   map_sum id (\<lambda>res. (errors res, success res, totalPages (siteContent res)))
     (fetchWebsite P w opts)\<close>
proof (intro conjI impI)
  show \<open>extractStructuredData P d =
     List.map_filter (JSON_parse P)
       (map (\<lambda>el. or_str (html P d el) [])
          (select P d ''script[type="application/ld+json"]''))\<close>
    by (simp add: extractStructuredData_def pushStructuredData_eq)
next
  assume \<open>select P d ''script[type="application/ld+json"]'' = els1 @ el # els2 \<and>
    JSON_parse P (or_str (html P d el) []) = None\<close>
  then show "extractStructuredData P d =
        pushStructuredData P d els1 [] @ pushStructuredData P d els2 []"
    by (simp add: extractStructuredData_def pushStructuredData_eq List.map_filter_def)
next
  assume "parseURL P pageUrl None = Inr u"
  then show "\<exists>page. extractPageContent P h pageUrl = Inr page \<and>
         structuredData (metadata page) = extractStructuredData P (load P h)"
    by (simp add: extractPageContent_def Let_def)
next
  show "map_sum id (\<lambda>res. (errors res, success res, totalPages (siteContent res)))
     (fetchWebsite (P\<lparr>JSON_parse := jp\<rparr>) w opts) =
   map_sum id (\<lambda>res. (errors res, success res, totalPages (siteContent res)))
     (fetchWebsite P w opts)"
    by (rule fetchWebsite_json)
qed

text \<open>
  On the sample page the first block, \<^verbatim>\<open>{\<close>, does not parse and the second does: the
  page has the one value, and the run that stored the page has no error.
\<close>

theorem structuredData_blocks_witness:
  \<open>extractStructuredData samplePages sampleDoc = [''{"a":1}''] \<and>
   map_sum id (\<lambda>page. structuredData (metadata page))
     (extractPageContent samplePages sampleHtml ''https://example.com/'') =
     Inr [''{"a":1}''] \<and>
   map_sum id (\<lambda>res. (errors res, success res, totalPages (siteContent res)))
     (fetchWebsite (samplePages\<lparr>JSON_parse := (\<lambda>s. None)\<rparr>) sampleWorld sampleOptions) =
     Inr ([], True, 1)\<close>
proof -
  have sel: \<open>select samplePages sampleDoc ''script[type="application/ld+json"]'' =
      [] @ \<lparr>el_tag = ''script'', el_attrs = [(''type'', ''application/ld+json'')],
             el_text = ''{''\<rparr> #
      [\<lparr>el_tag = ''script'', el_attrs = [(''type'', ''application/ld+json'')],
         el_text = ''{"a":1}''\<rparr>]\<close>
    by code_simp
  have bad: \<open>JSON_parse samplePages
      (or_str (html samplePages sampleDoc
         \<lparr>el_tag = ''script'', el_attrs = [(''type'', ''application/ld+json'')],
           el_text = ''{''\<rparr>) []) = None\<close>
    by code_simp
  have rest: \<open>pushStructuredData samplePages sampleDoc [] [] @
      pushStructuredData samplePages sampleDoc
        [\<lparr>el_tag = ''script'', el_attrs = [(''type'', ''application/ld+json'')],
           el_text = ''{"a":1}''\<rparr>] [] = [''{"a":1}'']\<close>
    by code_simp
  have ld: "load samplePages sampleHtml = sampleDoc"
    by (simp add: samplePages_def samplePlatform_def)
  have run: "map_sum id (\<lambda>res. (errors res, success res, totalPages (siteContent res)))
      (fetchWebsite samplePages sampleWorld sampleOptions) = Inr ([], True, 1)"
    by code_simp
  note t = structuredData_blocks_independent
    [where P = samplePages and d = sampleDoc and ?els1.0 = "[]"
       and el = "\<lparr>el_tag = ''script'', el_attrs = [(''type'', ''application/ld+json'')],
                   el_text = ''{''\<rparr>"
       and ?els2.0 = "[\<lparr>el_tag = ''script'', el_attrs = [(''type'', ''application/ld+json'')],
                        el_text = [CHR ''{'', CHR 0x22, CHR ''a'', CHR 0x22, CHR '':'', CHR ''1'',
                                   CHR ''}'']\<rparr>]"
       and pageUrl = "''https://example.com/''" and h = sampleHtml
       and u = "\<lparr>protocol = ''https:'', hostname = ''example.com'', pathname = ''/'',
                  origin = ''https://example.com''\<rparr>"
       and jp = "\<lambda>s. None" and w = sampleWorld and opts = sampleOptions]
  have \<open>extractStructuredData samplePages sampleDoc =
      pushStructuredData samplePages sampleDoc [] [] @
      pushStructuredData samplePages sampleDoc
        [\<lparr>el_tag = ''script'', el_attrs = [(''type'', ''application/ld+json'')],
           el_text = ''{"a":1}''\<rparr>] []\<close>
    by (rule t [THEN conjunct2, THEN conjunct1, THEN mp, OF conjI [OF sel bad]])
  then have 1: \<open>extractStructuredData samplePages sampleDoc = [''{"a":1}'']\<close>
    by (simp only: rest)
  obtain page where
    p: "extractPageContent samplePages sampleHtml ''https://example.com/'' = Inr page" and
    q: "structuredData (metadata page) =
          extractStructuredData samplePages (load samplePages sampleHtml)"
    using t [THEN conjunct2, THEN conjunct2, THEN conjunct1, THEN mp, OF sample_page_url]
    by blast
  have 3: "map_sum id (\<lambda>res. (errors res, success res, totalPages (siteContent res)))
     (fetchWebsite (samplePages\<lparr>JSON_parse := (\<lambda>s. None)\<rparr>) sampleWorld sampleOptions) =
     Inr ([], True, 1)"
    using t [THEN conjunct2, THEN conjunct2, THEN conjunct2] by (simp only: run)
  show ?thesis
    using 1 p q 3 by (simp add: ld)
qed

section \<open>The sitemap is sorted by depth, stably\<close>

lemma insert_cmp_depth:
  "insert_cmp (\<lambda>a b. int (depth a) - int (depth b)) x ys = insort_key depth x ys"
  by (induction ys) auto

lemma sort_cmp_depth:
  "sort_cmp (\<lambda>a b. int (depth a) - int (depth b)) xs = sort_key depth xs"
  by (induction xs) (simp_all add: sort_cmp_def sort_key_def insert_cmp_depth)

lemma sitemapEntry_eq:
  "sitemapEntry p =
     \<lparr>entry_url = url p, entry_title = title p,
      depth = length (filter (\<lambda>c. c = CHR ''/'') (path p))\<rparr>"
  by (simp add: sitemapEntry_def match_g_def Let_def)

text \<open>
  Claim C4. For every sequence of page records the sitemap has exactly one entry per
  page (it is a permutation of the pages' entries, an entry carrying the page's URL
  and title), the depth of an entry is the number of \<^verbatim>\<open>/\<close> characters in the page's
  path, the depths are in ascending order, and the entries of any one depth \<open>k\<close> stand
  in the order their pages had in the input.
\<close>

theorem buildSitemap_sorted_stable:
  "length (buildSitemap ps) = length ps \<and>
   mset (buildSitemap ps) =
     mset (map (\<lambda>p. \<lparr>entry_url = url p, entry_title = title p,
                       depth = length (filter (\<lambda>c. c = CHR ''/'') (path p))\<rparr>) ps) \<and>
   sorted (map depth (buildSitemap ps)) \<and>
   filter (\<lambda>e. depth e = k) (buildSitemap ps) =
     filter (\<lambda>e. depth e = k)
       (map (\<lambda>p. \<lparr>entry_url = url p, entry_title = title p,
                     depth = length (filter (\<lambda>c. c = CHR ''/'') (path p))\<rparr>) ps)"
proof -
  have b: "buildSitemap ps = sort_key depth (map sitemapEntry ps)"
    by (simp add: buildSitemap_def sort_cmp_depth)
  have e: "map sitemapEntry ps =
      map (\<lambda>p. \<lparr>entry_url = url p, entry_title = title p,
                   depth = length (filter (\<lambda>c. c = CHR ''/'') (path p))\<rparr>) ps"
    by (simp add: sitemapEntry_eq)
  show ?thesis
    unfolding b e by (simp add: sort_key_stable)
qed

text \<open>
  Four pages with the paths \<^verbatim>\<open>/a/b/\<close>, \<^verbatim>\<open>/x/\<close>, \<^verbatim>\<open>/\<close> and \<^verbatim>\<open>/a/\<close>: the two of depth 2 keep
  their order, and \<^verbatim>\<open>/a/b\<close>, with no final slash, would have depth 2 as well.
\<close>

lemma buildSitemap_example:
  "map (\<lambda>e. (entry_title e, depth e))
     (buildSitemap
        [samplePage ''https://example.com/a/b/'' ''/a/b/'' ''AB'' None [] [],
         samplePage ''https://example.com/x/'' ''/x/'' ''X'' None [] [],
         samplePage ''https://example.com/'' ''/'' ''Home'' None [] [],
         samplePage ''https://example.com/a/'' ''/a/'' ''A'' None [] []]) =
     [(''Home'', 1), (''X'', 2), (''A'', 2), (''AB'', 3)] \<and>
   depth (sitemapEntry (samplePage ''https://example.com/a/b'' ''/a/b'' ''AB'' None [] [])) = 2"
  by code_simp

section \<open>The digest in closed form\<close>

lemma pushBullets_eq: "pushBullets hs acc = acc @ map (\<lambda>h. ''- '' @ htext h) hs"
  by (induction hs arbitrary: acc) simp_all

lemma pushPageList_acc: "pushPageList ps acc = acc @ pushPageList ps []"
proof (induction ps arbitrary: acc)
  case Nil
  then show ?case by simp
next
  case (Cons p ps)
  show ?case
    by (simp add: Let_def Cons.IH [of "acc @ _"] Cons.IH [of "[_]"] Cons.IH [of "[_, _]"])
qed

lemma pushContent_acc: "pushContent ps acc = acc @ pushContent ps []"
proof (induction ps arbitrary: acc)
  case Nil
  then show ?case by simp
next
  case (Cons p ps)
  show ?case
    by (subst (1 2) pushContent.simps(2))
       (simp add: Let_def pushBullets_eq Cons.IH [of acc] Cons.IH [of "acc @ _"]
          Cons.IH [of "_ # _"])
qed

lemma pushContent_Cons: "pushContent (p # ps) [] = pushContent [p] [] @ pushContent ps []"
proof -
  have "pushContent (p # ps) [] = pushContent ps (pushContent [p] [])"
    by (simp add: Let_def)
  then show ?thesis
    using pushContent_acc [of ps "pushContent [p] []"] by (simp only:)
qed

lemma pushContent_concat_Nil:
  "pushContent ps [] = concat (map (\<lambda>p. pushContent [p] []) ps)"
proof (induction ps)
  case Nil
  show ?case by simp
next
  case (Cons p ps)
  have "pushContent (p # ps) [] = pushContent [p] [] @ pushContent ps []"
    by (rule pushContent_Cons)
  also have "\<dots> = pushContent [p] [] @ concat (map (\<lambda>p. pushContent [p] []) ps)"
    by (simp only: Cons.IH)
  finally show ?case by (simp del: pushContent.simps)
qed

lemma pushContent_concat:
  "pushContent ps acc = acc @ concat (map (\<lambda>p. pushContent [p] []) ps)"
  by (simp only: pushContent_acc [of ps acc] pushContent_concat_Nil [of ps])

lemma pushContent_single:
  "pushContent [page] [] =
     (if headings page = [] \<and> paragraphs page = [] then []
      else [''### '' @ title page, ''URL: '' @ url page, ''''] @
           map (\<lambda>h. ''- '' @ htext h) (filter (\<lambda>h. level_le h 2) (headings page)) @
           (case paragraphs page of
              [] \<Rightarrow> []
            | para # _ \<Rightarrow>
                if para = [] then []
                else ['''', take 300 para @ (if 300 < length para then ''...'' else '''')]) @
           [''''])"
  by (simp add: Let_def pushBullets_eq truthy_def first_of_def substring0_def
           split: list.splits)

lemma digestLines_closed:
  assumes "newURL base None = Inr u"
  shows "digestLines newURL ps base =
     Inr ([''# '' @ hostname u, ''''] @
          (case find (\<lambda>p. path p = ''/'' \<or> path p = '''') ps of
             None \<Rightarrow> []
           | Some hp \<Rightarrow>
               (case description hp of
                  None \<Rightarrow> []
                | Some dsc \<Rightarrow> if dsc = [] then [] else [''> '' @ dsc, ''''])) @
          [''## Seiten / Pages'', ''''] @ pushPageList ps [] @ [''''] @
          [''## Inhalt / Content'', ''''] @ concat (map (\<lambda>p. pushContent [p] []) ps))"
proof -
  have a: "pushPageList ps (x # xs) = (x # xs) @ pushPageList ps []" for x xs
    by (rule pushPageList_acc)
  have b: "pushContent ps (x # xs) = (x # xs) @ concat (map (\<lambda>p. pushContent [p] []) ps)"
    for x xs
    by (rule pushContent_concat)
  show ?thesis
    using assms
    by (simp add: digestLines_def Let_def truthy_def a b del: pushContent.simps
             split: option.splits)
qed

lemma find_first:
  "\<forall>p \<in> set before. \<not> Q p \<Longrightarrow> Q hp \<Longrightarrow> find Q (before @ hp # after) = Some hp"
  by (induction before) simp_all

section \<open>The digest: content subsections and the truncated first paragraph\<close>

text \<open>
  Claim C6. The digest that \<^verbatim>\<open>generateLlmsTxt\<close> returns is its lines joined by line
  feeds, and the lines end with the content subsections of the pages, in input order.
  A page contributes a subsection if and only if it has a heading or a paragraph. The
  subsection is the title line, the URL line, an empty line, a bullet for each heading
  of level at most 2 and, for a first paragraph that is not the empty string, an empty
  line and the first 300 characters of the paragraph, followed by \<^verbatim>\<open>...\<close> exactly when
  the paragraph is longer than 300 characters; an empty line ends the subsection.
\<close>

theorem digest_content_sections:
  "(newURL base None = Inr u \<longrightarrow>
      digestLines newURL ps base =
        Inr ([''# '' @ hostname u, ''''] @
             (case find (\<lambda>p. path p = ''/'' \<or> path p = '''') ps of
                None \<Rightarrow> []
              | Some hp \<Rightarrow>
                  (case description hp of
                     None \<Rightarrow> []
                   | Some dsc \<Rightarrow> if dsc = [] then [] else [''> '' @ dsc, ''''])) @
             [''## Seiten / Pages'', ''''] @ pushPageList ps [] @ [''''] @
             [''## Inhalt / Content'', ''''] @ concat (map (\<lambda>p. pushContent [p] []) ps))) \<and>
   (newURL base None = Inr u \<longrightarrow>
      generateLlmsTxt newURL ps base =
        Inr (join
               ([''# '' @ hostname u, ''''] @
                (case find (\<lambda>p. path p = ''/'' \<or> path p = '''') ps of
                   None \<Rightarrow> []
                 | Some hp \<Rightarrow>
                     (case description hp of
                        None \<Rightarrow> []
                      | Some dsc \<Rightarrow> if dsc = [] then [] else [''> '' @ dsc, ''''])) @
                [''## Seiten / Pages'', ''''] @ pushPageList ps [] @ [''''] @
                [''## Inhalt / Content'', ''''] @ concat (map (\<lambda>p. pushContent [p] []) ps))
               [CHR 0x0A])) \<and>
   (pushContent [page] [] = [] \<longleftrightarrow> headings page = [] \<and> paragraphs page = []) \<and>
   pushContent [page] [] =
     (if headings page = [] \<and> paragraphs page = [] then []
      else [''### '' @ title page, ''URL: '' @ url page, ''''] @
           map (\<lambda>h. ''- '' @ htext h) (filter (\<lambda>h. level_le h 2) (headings page)) @
           (case paragraphs page of
              [] \<Rightarrow> []
            | para # _ \<Rightarrow>
                if para = [] then []
                else ['''', take 300 para @ (if 300 < length para then ''...'' else '''')]) @
           [''''])"
proof (intro conjI impI)
  assume "newURL base None = Inr u"
  then show "digestLines newURL ps base =
        Inr ([''# '' @ hostname u, ''''] @
             (case find (\<lambda>p. path p = ''/'' \<or> path p = '''') ps of
                None \<Rightarrow> []
              | Some hp \<Rightarrow>
                  (case description hp of
                     None \<Rightarrow> []
                   | Some dsc \<Rightarrow> if dsc = [] then [] else [''> '' @ dsc, ''''])) @
             [''## Seiten / Pages'', ''''] @ pushPageList ps [] @ [''''] @
             [''## Inhalt / Content'', ''''] @ concat (map (\<lambda>p. pushContent [p] []) ps))"
    by (rule digestLines_closed)
next
  assume "newURL base None = Inr u"
  then show "generateLlmsTxt newURL ps base =
        Inr (join
               ([''# '' @ hostname u, ''''] @
                (case find (\<lambda>p. path p = ''/'' \<or> path p = '''') ps of
                   None \<Rightarrow> []
                 | Some hp \<Rightarrow>
                     (case description hp of
                        None \<Rightarrow> []
                      | Some dsc \<Rightarrow> if dsc = [] then [] else [''> '' @ dsc, ''''])) @
                [''## Seiten / Pages'', ''''] @ pushPageList ps [] @ [''''] @
                [''## Inhalt / Content'', ''''] @ concat (map (\<lambda>p. pushContent [p] []) ps))
               [CHR 0x0A])"
    by (simp only: generateLlmsTxt_def
          digestLines_closed [where newURL = newURL and base = base and u = u and ps = ps]
          sum.case)
next
  show "pushContent [page] [] = [] \<longleftrightarrow> headings page = [] \<and> paragraphs page = []"
    by (simp only: pushContent_single [of page]) simp
next
  show "pushContent [page] [] =
     (if headings page = [] \<and> paragraphs page = [] then []
      else [''### '' @ title page, ''URL: '' @ url page, ''''] @
           map (\<lambda>h. ''- '' @ htext h) (filter (\<lambda>h. level_le h 2) (headings page)) @
           (case paragraphs page of
              [] \<Rightarrow> []
            | para # _ \<Rightarrow>
                if para = [] then []
                else ['''', take 300 para @ (if 300 < length para then ''...'' else '''')]) @
           [''''])"
    by (rule pushContent_single)
qed

text \<open>
  Three pages: one with a heading and a paragraph of 310 characters, one with a
  paragraph of 300 characters only, one with neither; then the lines of the digest of
  the last two, and the text returned for all three.
\<close>

theorem digest_content_sections_witness:
  "pushContent
     [samplePage ''https://example.com/a'' ''/a'' ''A'' None
        [\<lparr>level = Some 1, htext = ''Home''\<rparr>, \<lparr>level = Some 3, htext = ''Deep''\<rparr>]
        [replicate 310 (CHR ''a''), ''a second paragraph, not shown'']] [] =
     [''### A'', ''URL: https://example.com/a'', '''', ''- Home'', '''',
      replicate 300 (CHR ''a'') @ ''...'', ''''] \<and>
   pushContent
     [samplePage ''https://example.com/b'' ''/b'' ''B'' None [] [replicate 300 (CHR ''b'')]] [] =
     [''### B'', ''URL: https://example.com/b'', '''', '''', replicate 300 (CHR ''b''), ''''] \<and>
   pushContent [samplePage ''https://example.com/c'' ''/c'' ''C'' None [] []] [] = [] \<and>
   digestLines sampleURL
     [samplePage ''https://example.com/b'' ''/b'' ''B'' None [] [replicate 300 (CHR ''b'')],
      samplePage ''https://example.com/c'' ''/c'' ''C'' None [] []]
     ''https://example.com/'' =
     Inr [''# example.com'', '''', ''## Seiten / Pages'', '''',
          ''- [B](https://example.com/b)'', ''- [C](https://example.com/c)'', '''',
          ''## Inhalt / Content'', '''',
          ''### B'', ''URL: https://example.com/b'', '''', '''', replicate 300 (CHR ''b''), ''''] \<and>
   generateLlmsTxt sampleURL
     [samplePage ''https://example.com/a'' ''/a'' ''A'' None
        [\<lparr>level = Some 1, htext = ''Home''\<rparr>, \<lparr>level = Some 3, htext = ''Deep''\<rparr>]
        [replicate 310 (CHR ''a''), ''a second paragraph, not shown''],
      samplePage ''https://example.com/b'' ''/b'' ''B'' None [] [replicate 300 (CHR ''b'')],
      samplePage ''https://example.com/c'' ''/c'' ''C'' None [] []]
     ''https://example.com/'' =
     Inr (join
            [''# example.com'', '''', ''## Seiten / Pages'', '''',
             ''- [A](https://example.com/a)'', ''- [B](https://example.com/b)'',
             ''- [C](https://example.com/c)'', '''',
             ''## Inhalt / Content'', '''',
             ''### A'', ''URL: https://example.com/a'', '''', ''- Home'', '''',
             replicate 300 (CHR ''a'') @ ''...'', '''',
             ''### B'', ''URL: https://example.com/b'', '''', '''', replicate 300 (CHR ''b''), '''']
            [CHR 0x0A])"
proof -
  have a: "pushContent
     [samplePage ''https://example.com/a'' ''/a'' ''A'' None
        [\<lparr>level = Some 1, htext = ''Home''\<rparr>, \<lparr>level = Some 3, htext = ''Deep''\<rparr>]
        [replicate 310 (CHR ''a''), ''a second paragraph, not shown'']] [] =
     [''### A'', ''URL: https://example.com/a'', '''', ''- Home'', '''',
      replicate 300 (CHR ''a'') @ ''...'', '''']"
    using digest_content_sections
            [where page = "samplePage ''https://example.com/a'' ''/a'' ''A'' None
               [\<lparr>level = Some 1, htext = ''Home''\<rparr>, \<lparr>level = Some 3, htext = ''Deep''\<rparr>]
               [replicate 310 (CHR ''a''), ''a second paragraph, not shown'']",
             THEN conjunct2, THEN conjunct2, THEN conjunct2]
    by (simp add: samplePage_def level_le_def)
  have b: "pushContent
     [samplePage ''https://example.com/b'' ''/b'' ''B'' None [] [replicate 300 (CHR ''b'')]] [] =
     [''### B'', ''URL: https://example.com/b'', '''', '''', replicate 300 (CHR ''b''), '''']"
    using digest_content_sections
            [where page = "samplePage ''https://example.com/b'' ''/b'' ''B'' None []
               [replicate 300 (CHR ''b'')]",
             THEN conjunct2, THEN conjunct2, THEN conjunct2]
    by (simp add: samplePage_def)
  have c: "pushContent [samplePage ''https://example.com/c'' ''/c'' ''C'' None [] []] [] = []"
    using digest_content_sections
            [where page = "samplePage ''https://example.com/c'' ''/c'' ''C'' None [] []",
             THEN conjunct2, THEN conjunct2, THEN conjunct1]
    by (simp add: samplePage_def)
  have f: "find (\<lambda>p. path p = ''/'' \<or> path p = '''')
      [samplePage ''https://example.com/b'' ''/b'' ''B'' None [] [replicate 300 (CHR ''b'')],
       samplePage ''https://example.com/c'' ''/c'' ''C'' None [] []] = None"
    by (simp add: samplePage_def)
  have l: "pushPageList
      [samplePage ''https://example.com/b'' ''/b'' ''B'' None [] [replicate 300 (CHR ''b'')],
       samplePage ''https://example.com/c'' ''/c'' ''C'' None [] []] [] =
      [''- [B](https://example.com/b)'', ''- [C](https://example.com/c)'']"
    by (simp add: samplePage_def truthy_def)
  have m: "concat (map (\<lambda>p. pushContent [p] [])
      [samplePage ''https://example.com/b'' ''/b'' ''B'' None [] [replicate 300 (CHR ''b'')],
       samplePage ''https://example.com/c'' ''/c'' ''C'' None [] []]) =
      pushContent
        [samplePage ''https://example.com/b'' ''/b'' ''B'' None [] [replicate 300 (CHR ''b'')]]
        [] @
      pushContent [samplePage ''https://example.com/c'' ''/c'' ''C'' None [] []] []"
    by (simp del: pushContent.simps)
  have d: "digestLines sampleURL
     [samplePage ''https://example.com/b'' ''/b'' ''B'' None [] [replicate 300 (CHR ''b'')],
      samplePage ''https://example.com/c'' ''/c'' ''C'' None [] []]
     ''https://example.com/'' =
     Inr [''# example.com'', '''', ''## Seiten / Pages'', '''',
          ''- [B](https://example.com/b)'', ''- [C](https://example.com/c)'', '''',
          ''## Inhalt / Content'', '''',
          ''### B'', ''URL: https://example.com/b'', '''', '''', replicate 300 (CHR ''b''), '''']"
    using digest_content_sections
            [where newURL = sampleURL and base = "''https://example.com/''"
               and u = "\<lparr>protocol = ''https:'', hostname = ''example.com'', pathname = ''/'',
                          origin = ''https://example.com''\<rparr>"
               and ps = "[samplePage ''https://example.com/b'' ''/b'' ''B'' None []
                            [replicate 300 (CHR ''b'')],
                          samplePage ''https://example.com/c'' ''/c'' ''C'' None [] []]",
             THEN conjunct1, THEN mp, OF sample_seed]
    by (simp only: f l m b c) simp
  have f3: "find (\<lambda>p. path p = ''/'' \<or> path p = '''')
      [samplePage ''https://example.com/a'' ''/a'' ''A'' None
        [\<lparr>level = Some 1, htext = ''Home''\<rparr>, \<lparr>level = Some 3, htext = ''Deep''\<rparr>]
        [replicate 310 (CHR ''a''), ''a second paragraph, not shown''],
      samplePage ''https://example.com/b'' ''/b'' ''B'' None [] [replicate 300 (CHR ''b'')],
      samplePage ''https://example.com/c'' ''/c'' ''C'' None [] []] = None"
    by (simp add: samplePage_def)
  have l3: "pushPageList
      [samplePage ''https://example.com/a'' ''/a'' ''A'' None
        [\<lparr>level = Some 1, htext = ''Home''\<rparr>, \<lparr>level = Some 3, htext = ''Deep''\<rparr>]
        [replicate 310 (CHR ''a''), ''a second paragraph, not shown''],
      samplePage ''https://example.com/b'' ''/b'' ''B'' None [] [replicate 300 (CHR ''b'')],
      samplePage ''https://example.com/c'' ''/c'' ''C'' None [] []] [] =
      [''- [A](https://example.com/a)'', ''- [B](https://example.com/b)'',
       ''- [C](https://example.com/c)'']"
    by (simp add: samplePage_def truthy_def)
  have m3: "concat (map (\<lambda>p. pushContent [p] [])
      [samplePage ''https://example.com/a'' ''/a'' ''A'' None
        [\<lparr>level = Some 1, htext = ''Home''\<rparr>, \<lparr>level = Some 3, htext = ''Deep''\<rparr>]
        [replicate 310 (CHR ''a''), ''a second paragraph, not shown''],
      samplePage ''https://example.com/b'' ''/b'' ''B'' None [] [replicate 300 (CHR ''b'')],
      samplePage ''https://example.com/c'' ''/c'' ''C'' None [] []]) =
      pushContent
        [samplePage ''https://example.com/a'' ''/a'' ''A'' None
        [\<lparr>level = Some 1, htext = ''Home''\<rparr>, \<lparr>level = Some 3, htext = ''Deep''\<rparr>]
        [replicate 310 (CHR ''a''), ''a second paragraph, not shown'']] [] @
      pushContent
        [samplePage ''https://example.com/b'' ''/b'' ''B'' None [] [replicate 300 (CHR ''b'')]]
        [] @
      pushContent [samplePage ''https://example.com/c'' ''/c'' ''C'' None [] []] []"
    by (simp del: pushContent.simps)
  have g: "generateLlmsTxt sampleURL
     [samplePage ''https://example.com/a'' ''/a'' ''A'' None
        [\<lparr>level = Some 1, htext = ''Home''\<rparr>, \<lparr>level = Some 3, htext = ''Deep''\<rparr>]
        [replicate 310 (CHR ''a''), ''a second paragraph, not shown''],
      samplePage ''https://example.com/b'' ''/b'' ''B'' None [] [replicate 300 (CHR ''b'')],
      samplePage ''https://example.com/c'' ''/c'' ''C'' None [] []]
     ''https://example.com/'' =
     Inr (join
            [''# example.com'', '''', ''## Seiten / Pages'', '''',
             ''- [A](https://example.com/a)'', ''- [B](https://example.com/b)'',
             ''- [C](https://example.com/c)'', '''',
             ''## Inhalt / Content'', '''',
             ''### A'', ''URL: https://example.com/a'', '''', ''- Home'', '''',
             replicate 300 (CHR ''a'') @ ''...'', '''',
             ''### B'', ''URL: https://example.com/b'', '''', '''', replicate 300 (CHR ''b''), '''']
            [CHR 0x0A])"
    using digest_content_sections
            [where newURL = sampleURL and base = "''https://example.com/''"
               and u = "\<lparr>protocol = ''https:'', hostname = ''example.com'', pathname = ''/'',
                          origin = ''https://example.com''\<rparr>"
               and ps = "[samplePage ''https://example.com/a'' ''/a'' ''A'' None
        [\<lparr>level = Some 1, htext = ''Home''\<rparr>, \<lparr>level = Some 3, htext = ''Deep''\<rparr>]
        [replicate 310 (CHR ''a''), ''a second paragraph, not shown''],
      samplePage ''https://example.com/b'' ''/b'' ''B'' None [] [replicate 300 (CHR ''b'')],
      samplePage ''https://example.com/c'' ''/c'' ''C'' None [] []]",
             THEN conjunct2, THEN conjunct1, THEN mp, OF sample_seed]
    by (simp only: f3 l3 m3 a b c) (simp del: join.simps)
  show ?thesis
    by (simp only: a b c d g simp_thms)
qed

section \<open>The digest: the summary comes from the first root page only\<close>

text \<open>
  Claim C10. Let \<open>hp\<close> be the first page in input order whose path is \<^verbatim>\<open>/\<close> or empty.
  The block-quoted summary of the digest is taken from \<open>hp\<close> alone: it is the
  description of \<open>hp\<close> when that is present and not empty, and otherwise there is no
  summary at all; in particular, when \<open>hp\<close> has no description, the heading of the
  digest is followed at once by the page list, whatever pages come after \<open>hp\<close>, a later
  page with path \<^verbatim>\<open>/\<close> or empty and a description included.
\<close>

theorem digest_summary_first_root_page:
  assumes "newURL base None = Inr u"
    and "\<forall>p \<in> set before. path p \<noteq> ''/'' \<and> path p \<noteq> ''''"
    and "path hp = ''/'' \<or> path hp = ''''"
  shows "digestLines newURL (before @ hp # after) base =
           Inr ([''# '' @ hostname u, ''''] @
                (case description hp of
                   None \<Rightarrow> []
                 | Some dsc \<Rightarrow> if dsc = [] then [] else [''> '' @ dsc, '''']) @
                [''## Seiten / Pages'', ''''] @ pushPageList (before @ hp # after) [] @
                ['''', ''## Inhalt / Content'', ''''] @ pushContent (before @ hp # after) []) \<and>
         (description hp = None \<longrightarrow>
            generateLlmsTxt newURL (before @ hp # after) base =
              Inr (join ([''# '' @ hostname u, '''', ''## Seiten / Pages'', ''''] @
                         pushPageList (before @ hp # after) [] @
                         ['''', ''## Inhalt / Content'', ''''] @
                         pushContent (before @ hp # after) []) [CHR 0x0A]))"
proof -
  have f: "find (\<lambda>p. path p = ''/'' \<or> path p = '''') (before @ hp # after) = Some hp"
    using assms(2,3) by (intro find_first) auto
  have d: "digestLines newURL (before @ hp # after) base =
           Inr ([''# '' @ hostname u, ''''] @
                (case description hp of
                   None \<Rightarrow> []
                 | Some dsc \<Rightarrow> if dsc = [] then [] else [''> '' @ dsc, '''']) @
                [''## Seiten / Pages'', ''''] @ pushPageList (before @ hp # after) [] @
                ['''', ''## Inhalt / Content'', ''''] @ pushContent (before @ hp # after) [])"
    by (simp only: digestLines_closed
          [where newURL = newURL and base = base and u = u and ps = "before @ hp # after",
           OF assms(1)]
          pushContent_concat_Nil [of "before @ hp # after", symmetric] f option.case
          append.simps append_assoc)
  show ?thesis
  proof (intro conjI impI)
    show "digestLines newURL (before @ hp # after) base =
           Inr ([''# '' @ hostname u, ''''] @
                (case description hp of
                   None \<Rightarrow> []
                 | Some dsc \<Rightarrow> if dsc = [] then [] else [''> '' @ dsc, '''']) @
                [''## Seiten / Pages'', ''''] @ pushPageList (before @ hp # after) [] @
                ['''', ''## Inhalt / Content'', ''''] @ pushContent (before @ hp # after) [])"
      by (rule d)
  next
    assume "description hp = None"
    then show "generateLlmsTxt newURL (before @ hp # after) base =
              Inr (join ([''# '' @ hostname u, '''', ''## Seiten / Pages'', ''''] @
                         pushPageList (before @ hp # after) [] @
                         ['''', ''## Inhalt / Content'', ''''] @
                         pushContent (before @ hp # after) []) [CHR 0x0A])"
      by (simp add: generateLlmsTxt_def d del: pushContent.simps)
  qed
qed

text \<open>
  Three pages: one off the root, then a root page without a description, then a page
  with the empty path and a description. The digest has no summary line; the later
  description only appears under its page in the page list.
\<close>

theorem digest_summary_witness:
  "digestLines sampleURL
     ([samplePage ''https://example.com/x'' ''/x'' ''X'' None [] []] @
      samplePage ''https://example.com/'' ''/'' ''Home'' None [] [] #
      [samplePage ''https://example.com'' '''' ''Other'' (Some ''Later summary'') [] []])
     ''https://example.com/'' =
     Inr [''# example.com'', '''', ''## Seiten / Pages'', '''',
          ''- [X](https://example.com/x)'', ''- [Home](https://example.com/)'',
          ''- [Other](https://example.com)'', ''  Later summary'', '''',
          ''## Inhalt / Content'', ''''] \<and>
   generateLlmsTxt sampleURL
     ([samplePage ''https://example.com/x'' ''/x'' ''X'' None [] []] @
      samplePage ''https://example.com/'' ''/'' ''Home'' None [] [] #
      [samplePage ''https://example.com'' '''' ''Other'' (Some ''Later summary'') [] []])
     ''https://example.com/'' =
     Inr (join [''# example.com'', '''', ''## Seiten / Pages'', '''',
                ''- [X](https://example.com/x)'', ''- [Home](https://example.com/)'',
                ''- [Other](https://example.com)'', ''  Later summary'', '''',
                ''## Inhalt / Content'', ''''] [CHR 0x0A])"
proof -
  have l: "pushPageList
      ([samplePage ''https://example.com/x'' ''/x'' ''X'' None [] []] @
       samplePage ''https://example.com/'' ''/'' ''Home'' None [] [] #
       [samplePage ''https://example.com'' '''' ''Other'' (Some ''Later summary'') [] []]) [] =
      [''- [X](https://example.com/x)'', ''- [Home](https://example.com/)'',
       ''- [Other](https://example.com)'', ''  Later summary'']"
    by (simp add: samplePage_def truthy_def)
  have c: "pushContent
      ([samplePage ''https://example.com/x'' ''/x'' ''X'' None [] []] @
       samplePage ''https://example.com/'' ''/'' ''Home'' None [] [] #
       [samplePage ''https://example.com'' '''' ''Other'' (Some ''Later summary'') [] []]) [] = []"
    by (simp add: samplePage_def)
  have b: "\<forall>p \<in> set [samplePage ''https://example.com/x'' ''/x'' ''X'' None [] []].
             path p \<noteq> ''/'' \<and> path p \<noteq> ''''"
    by (simp add: samplePage_def)
  have h: "path (samplePage ''https://example.com/'' ''/'' ''Home'' None [] []) = ''/'' \<or>
           path (samplePage ''https://example.com/'' ''/'' ''Home'' None [] []) = ''''"
    by (simp add: samplePage_def)
  have n: "description (samplePage ''https://example.com/'' ''/'' ''Home'' None [] []) = None"
    by (simp add: samplePage_def)
  show ?thesis
    using digest_summary_first_root_page
            [where newURL = sampleURL and base = "''https://example.com/''"
               and u = "\<lparr>protocol = ''https:'', hostname = ''example.com'', pathname = ''/'',
                          origin = ''https://example.com''\<rparr>"
               and before = "[samplePage ''https://example.com/x'' ''/x'' ''X'' None [] []]"
               and hp = "samplePage ''https://example.com/'' ''/'' ''Home'' None [] []"
               and after = "[samplePage ''https://example.com'' '''' ''Other''
                               (Some ''Later summary'') [] []]",
             OF sample_seed b h]
    by (simp only: l c n) simp
qed

section \<open>A run succeeds exactly when it recorded no error\<close>

text \<open>
  Claim C7. For every run that returns a result, the result's success flag is true if
  and only if its error list is empty; in particular a result with no error, no page
  and no asset is a success.
\<close>

theorem fetchWebsite_success_iff_no_errors:
  assumes "fetchWebsite P w opts = Inr res"
  shows "(success res \<longleftrightarrow> errors res = []) \<and>
         (errors res = [] \<and> totalPages (siteContent res) = 0 \<and>
          totalAssets (siteContent res) = 0 \<longrightarrow> success res)"
  using assms
  by (auto simp: fetchWebsite_def Let_def
           split: sum.splits option.splits prod.splits if_splits)

text \<open>The run of the sample platform in the quiet world: nothing stored, nothing failed.\<close>

lemma quiet_run:
  "fetchWebsite (samplePlatform []) quietWorld sampleOptions =
     Inr \<lparr>success = True,
          siteContent =
            \<lparr>baseUrl = ''https://example.com/'',
             fetchedAt = ''2024-01-01T00:00:00.000Z'',
             totalPages = 0, totalAssets = 0, pages = [], assets = [], sitemap = [],
             suggestedLlmsTxt =
               join [''# example.com'', '''', ''## Seiten / Pages'', '''', '''',
                     ''## Inhalt / Content'', ''''] [CHR 0x0A]\<rparr>,
          outputDir = ''out'', errors = []\<rparr>"
  by code_simp

theorem fetchWebsite_success_witness:
  "(case fetchWebsite (samplePlatform []) quietWorld sampleOptions of
      Inl e \<Rightarrow> False
    | Inr res \<Rightarrow>
        success res \<and> errors res = [] \<and>
        totalPages (siteContent res) = 0 \<and> totalAssets (siteContent res) = 0)"
  using fetchWebsite_success_iff_no_errors [OF quiet_run] by (simp add: quiet_run)

text \<open>
  A run returns a result whenever the seed parses and the calls outside the \<^verbatim>\<open>try\<close>
  block succeed, whatever the scraper and the files do.
\<close>

lemma fetchWebsite_returns:
  fixes P :: "('doc, 'el, 'j) platform"
  assumes "parseURL P (opt_url opts) None = Inr u" and "prepare w = None"
    and "persist w = None"
  shows "\<exists>res. fetchWebsite P w opts = Inr res"
proof -
  define r0 :: "'j run" where "r0 = \<lparr>run_pages = [], run_assets = [], run_errors = []\<rparr>"
  obtain a r1 where t: "tryScrape P w opts r0 = (a, r1)"
    by (cases "tryScrape P w opts r0")
  define r where
    "r = (case a of Some e \<Rightarrow> r1\<lparr>run_errors := run_errors r1 @ [''Scraping error: '' @ e]\<rparr>
          | None \<Rightarrow> r1)"
  obtain g where g: "generateLlmsTxt (parseURL P) (run_pages r) (opt_url opts) = Inr g"
    using generateLlmsTxt_returns
            [where newURL = "parseURL P" and base = "opt_url opts", OF assms(1)]
    by blast
  show ?thesis
    using assms t g
    by (cases a) (simp_all add: fetchWebsite_def Let_def r_def r0_def)
qed

text \<open>
  When the scraper fails, the run still returns: with one error, no page, no asset,
  and not as a success.
\<close>

lemma failed_scrape_run:
  "map_sum id
     (\<lambda>res. (success res, errors res, totalPages (siteContent res),
             totalAssets (siteContent res)))
     (fetchWebsite (samplePlatform []) (quietWorld\<lparr>scrape := Inl ''Error: ETIMEDOUT''\<rparr>)
        sampleOptions) =
   Inr (False, [''Scraping error: Error: ETIMEDOUT''], 0, 0)"
  by code_simp

end
